theory Spec2Isabelle
  imports Main "HOL-Library.Word" "HOL-Library.AList"
begin

section \<open>Python strings\<close>

text \<open>
  A Python \<open>str\<close> is a sequence of Unicode code points and \<open>len\<close> counts code points,
  so a string is modelled as the list of its code points. String literals of the source
  are written \<open>lit ''...''\<close>.
\<close>

type_synonym pystr = "nat list"

definition lit :: "string \<Rightarrow> pystr" where
  "lit s = map of_char s"

text \<open>
  The code points that \<open>str.split()\<close> and \<open>str.strip()\<close> (both called without an argument)
  treat as whitespace: U+0009..U+000D, U+001C..U+001F, U+0020, U+0085, U+00A0, U+1680,
  U+2000..U+200A, U+2028, U+2029, U+202F, U+205F and U+3000.
\<close>

definition isspace :: "nat \<Rightarrow> bool" where
  "isspace c = ((9 \<le> c \<and> c \<le> 13) \<or> (28 \<le> c \<and> c \<le> 32) \<or> c = 133 \<or> c = 160
     \<or> c = 5760 \<or> (8192 \<le> c \<and> c \<le> 8202) \<or> c = 8232 \<or> c = 8233 \<or> c = 8239
     \<or> c = 8287 \<or> c = 12288)"

text \<open>\<open>s.strip()\<close>: whitespace removed at both ends.\<close>

definition py_strip :: "pystr \<Rightarrow> pystr" where
  "py_strip s = rev (dropWhile isspace (rev (dropWhile isspace s)))"

text \<open>
  \<open>s.split()\<close>: the maximal runs of non-whitespace characters, in order. \<open>cur\<close> is the
  word being read.
\<close>

fun split_aux :: "pystr \<Rightarrow> pystr \<Rightarrow> pystr list" where
  "split_aux cur [] = (if cur = [] then [] else [cur])"
| "split_aux cur (c # cs) =
     (if isspace c then (if cur = [] then split_aux [] cs else cur # split_aux [] cs)
      else split_aux (cur @ [c]) cs)"

definition py_split :: "pystr \<Rightarrow> pystr list" where
  "py_split s = split_aux [] s"

text \<open>\<open>sep.join(xs)\<close> for a list of strings.\<close>

fun py_join :: "pystr \<Rightarrow> pystr list \<Rightarrow> pystr" where
  "py_join sep [] = []"
| "py_join sep [x] = x"
| "py_join sep (x # y # ys) = x @ sep @ py_join sep (y # ys)"

text \<open>\<open>s.startswith(p)\<close>, \<open>s.endswith(p)\<close> and \<open>p in s\<close>.\<close>

definition startswith :: "pystr \<Rightarrow> pystr \<Rightarrow> bool" where
  "startswith s p = (take (length p) s = p)"

definition endswith :: "pystr \<Rightarrow> pystr \<Rightarrow> bool" where
  "endswith s p = (length p \<le> length s \<and> drop (length s - length p) s = p)"

fun contains :: "pystr \<Rightarrow> pystr \<Rightarrow> bool" where
  "contains p [] = (p = [])"
| "contains p (c # cs) = (startswith (c # cs) p \<or> contains p cs)"

text \<open>
  \<open>str.lower()\<close> follows the Unicode case tables of the interpreter, which are not part of
  the repository: the functions that call it take the lower-casing function as a
  parameter \<open>lw\<close>. On a string of ASCII characters \<open>str.lower()\<close> is \<open>ascii_lower\<close>.
\<close>

definition ascii_lower :: "pystr \<Rightarrow> pystr" where
  "ascii_lower s = map (\<lambda>c. if 65 \<le> c \<and> c \<le> 90 then c + 32 else c) s"

definition lowers_ascii :: "(pystr \<Rightarrow> pystr) \<Rightarrow> bool" where
  "lowers_ascii lw = (\<forall>s. (\<forall>c \<in> set s. c < 128) \<longrightarrow> lw s = ascii_lower s)"

section \<open>Errors\<close>

text \<open>
  An exception is its class and its message (\<open>str(e)\<close>). \<open>RequestException\<close> and
  \<open>JSONDecodeError\<close> are raised by the libraries; \<open>TypeError\<close>, \<open>AttributeError\<close> and
  \<open>KeyError\<close> by the interpreter (their messages are those of CPython 3.12);
  \<open>ValueError\<close> and \<open>Exception\<close> by the program's own \<open>raise\<close> statements.
\<close>

datatype exn =
    RequestException pystr
  | JSONDecodeError pystr
  | TypeError pystr
  | AttributeError pystr
  | KeyError pystr
  | ValueError pystr
  | Exception pystr

fun str_exn :: "exn \<Rightarrow> pystr" where
  "str_exn (RequestException m) = m"
| "str_exn (JSONDecodeError m) = m"
| "str_exn (TypeError m) = m"
| "str_exn (AttributeError m) = m"
| "str_exn (KeyError m) = m"
| "str_exn (ValueError m) = m"
| "str_exn (Exception m) = m"

section \<open>Text normalizer\<close>

text \<open>The first two statements of \<open>clean_text\<close>: \<open>" ".join(text.split())\<close>, then \<open>strip()\<close>.\<close>

definition collapse_ws :: "pystr \<Rightarrow> pystr" where
  "collapse_ws text = py_strip (py_join (lit '' '') (py_split text))"

definition truncation_marker :: pystr where
  "truncation_marker = lit ''... [truncated]''"

text \<open>\<open>clean_text(text, max_length)\<close> of \<open>paper_digest_assistant.py\<close>.\<close>

definition clean_text :: "pystr \<Rightarrow> nat \<Rightarrow> exn + pystr" where
  "clean_text text max_length =
     (let text1 = collapse_ws text;
          text2 = (if length text1 > max_length
                   then take max_length text1 @ truncation_marker else text1)
      in if text2 = [] \<or> length (py_strip text2) < 100
         then Inl (ValueError (lit
           ''Extracted text is too short or empty. The content may be inaccessible.''))
         else Inr text2)"

text \<open>
  The cleaning block at the end of \<open>fetch_content_from_url\<close> of \<open>app.py\<close>, with its cap
  of 10000 written in place.
\<close>

definition clean_fetched :: "pystr \<Rightarrow> exn + pystr" where
  "clean_fetched full_text =
     (let t1 = collapse_ws full_text;
          t2 = (if length t1 > 10000 then take 10000 t1 @ truncation_marker else t1)
      in if t2 = [] \<or> length (py_strip t2) < 100
         then Inl (ValueError (lit
           ''Could not extract sufficient text from the URL. The content may be too short or inaccessible.''))
         else Inr t2)"

section \<open>Content fetcher and text extractor\<close>

text \<open>
  What \<open>requests.get\<close> and the two parsers give for a URL. \<open>content_type\<close> is the
  \<open>Content-Type\<close> header when the response has one; \<open>pdf_pages\<close> is what
  \<open>PdfReader(BytesIO(response.content))\<close> gives: the exception it raises, or the list
  \<open>reader.pages\<close>, each page standing for the string its \<open>extract_text()\<close> returns;
  \<open>soup_paragraphs\<close> are the \<open>get_text()\<close> of the \<open>p\<close> elements that \<open>find_all\<close>
  returns once the unwanted elements are decomposed, and \<open>soup_text\<close> is \<open>soup.get_text()\<close>.
  The network is a parameter \<open>http :: pystr \<Rightarrow> exn + response\<close>: \<open>Inl\<close> is the exception
  of \<open>requests.get\<close> or \<open>raise_for_status\<close>.
\<close>

record response =
  content_type :: "pystr option"
  pdf_pages :: "exn + pystr list"
  soup_paragraphs :: "pystr list"
  soup_text :: pystr

text \<open>
  The page loop of both PDF branches: \<open>for i in range(min(max_pages, len(reader.pages)))\<close>
  appends \<open>reader.pages[i].extract_text()\<close>. The second component records the index of
  every page whose text is extracted, in the order of the calls.
\<close>

definition read_pdf_pages :: "nat \<Rightarrow> pystr list \<Rightarrow> pystr list \<times> nat list" where
  "read_pdf_pages max_pages pages =
     fold (\<lambda>i (text_parts, reads). (text_parts @ [pages ! i], reads @ [i]))
       [0 ..< min max_pages (length pages)] ([], [])"

definition blank_line :: pystr where
  "blank_line = [10, 10]"

definition pdf_full_text :: "nat \<Rightarrow> pystr list \<Rightarrow> pystr" where
  "pdf_full_text max_pages pages = py_join blank_line (fst (read_pdf_pages max_pages pages))"

text \<open>The markup branch: non-blank paragraphs, or the whole text when there is none.\<close>

definition html_full_text :: "response \<Rightarrow> pystr" where
  "html_full_text resp =
     (let text_parts = filter (\<lambda>p. py_strip p \<noteq> []) (soup_paragraphs resp);
          text_parts' = (if text_parts = [] then [soup_text resp] else text_parts)
      in py_join blank_line text_parts')"

text \<open>
  The format test of \<open>fetch_content_from_url\<close> (\<open>app.py\<close>), where \<open>content_type\<close> is
  \<open>response.headers.get('Content-Type', '').lower()\<close>.
\<close>

definition is_pdf_response :: "(pystr \<Rightarrow> pystr) \<Rightarrow> pystr \<Rightarrow> pystr option \<Rightarrow> bool" where
  "is_pdf_response lw url header =
     (let content_type = lw (case header of None \<Rightarrow> [] | Some h \<Rightarrow> h)
      in endswith url (lit ''.pdf'') \<or> contains (lit ''application/pdf'') content_type)"

text \<open>The format test of \<open>main\<close> in \<open>paper_digest_assistant.py\<close>, on the URL alone.\<close>

definition is_pdf_url :: "(pystr \<Rightarrow> pystr) \<Rightarrow> pystr \<Rightarrow> bool" where
  "is_pdf_url lw paper_url =
     (endswith (lw paper_url) (lit ''.pdf'') \<or> contains (lit ''pdf'') (lw paper_url))"

text \<open>The text that \<open>fetch_content_from_url\<close> extracts from a response, before cleaning.\<close>

definition extract_full_text :: "(pystr \<Rightarrow> pystr) \<Rightarrow> pystr \<Rightarrow> response \<Rightarrow> exn + pystr" where
  "extract_full_text lw url resp =
     (if is_pdf_response lw url (content_type resp)
      then (case pdf_pages resp of
              Inl e \<Rightarrow> Inl e
            | Inr pages \<Rightarrow> Inr (pdf_full_text 5 pages))
      else Inr (html_full_text resp))"

text \<open>The two \<open>except\<close> clauses of \<open>fetch_content_from_url\<close>.\<close>

fun fetch_handler :: "exn \<Rightarrow> exn" where
  "fetch_handler (RequestException m) = Exception (lit ''Failed to fetch content from URL: '' @ m)"
| "fetch_handler e = Exception (lit ''Error processing content: '' @ str_exn e)"

definition fetch_content_from_url ::
  "(pystr \<Rightarrow> pystr) \<Rightarrow> (pystr \<Rightarrow> exn + response) \<Rightarrow> pystr \<Rightarrow> exn + pystr" where
  "fetch_content_from_url lw http url =
     (case http url of
        Inl e \<Rightarrow> Inl (fetch_handler e)
      | Inr resp \<Rightarrow>
          (case extract_full_text lw url resp of
             Inl e \<Rightarrow> Inl (fetch_handler e)
           | Inr full_text \<Rightarrow>
               (case clean_fetched full_text of
                  Inl e \<Rightarrow> Inl (fetch_handler e)
                | Inr t \<Rightarrow> Inr t)))"

text \<open>\<open>fetch_pdf_text\<close> and \<open>fetch_html_text\<close> of \<open>paper_digest_assistant.py\<close>.\<close>

definition fetch_pdf_text :: "(pystr \<Rightarrow> exn + response) \<Rightarrow> pystr \<Rightarrow> nat \<Rightarrow> exn + pystr" where
  "fetch_pdf_text http url max_pages =
     (case (case http url of
              Inl e \<Rightarrow> Inl e
            | Inr resp \<Rightarrow>
                (case pdf_pages resp of
                   Inl e \<Rightarrow> Inl e
                 | Inr pages \<Rightarrow> clean_text (pdf_full_text max_pages pages) 10000)) of
        Inl e \<Rightarrow> Inl (Exception (lit ''Failed to fetch PDF from URL: '' @ str_exn e))
      | Inr t \<Rightarrow> Inr t)"

definition fetch_html_text :: "(pystr \<Rightarrow> exn + response) \<Rightarrow> pystr \<Rightarrow> exn + pystr" where
  "fetch_html_text http url =
     (case (case http url of
              Inl e \<Rightarrow> Inl e
            | Inr resp \<Rightarrow> clean_text (html_full_text resp) 10000) of
        Inl e \<Rightarrow> Inl (Exception (lit ''Failed to fetch HTML from URL: '' @ str_exn e))
      | Inr t \<Rightarrow> Inr t)"

section \<open>Structured extractor\<close>

text \<open>
  The values \<open>json.loads\<close> returns. A \<open>float\<close> is its IEEE 754 bit pattern; an object is
  the list of its entries in insertion order.
\<close>

datatype json =
    JNull
  | JBool bool
  | JInt int
  | JFloat "64 word"
  | JStr pystr
  | JList "json list"
  | JObj "(pystr \<times> json) list"

type_synonym dict = "(pystr \<times> json) list"

fun type_name :: "json \<Rightarrow> pystr" where
  "type_name JNull = lit ''NoneType''"
| "type_name (JBool b) = lit ''bool''"
| "type_name (JInt i) = lit ''int''"
| "type_name (JFloat f) = lit ''float''"
| "type_name (JStr s) = lit ''str''"
| "type_name (JList xs) = lit ''list''"
| "type_name (JObj kvs) = lit ''dict''"

text \<open>
  The post-processing of the model's answer: \<open>content.strip()\<close>, the three \<open>if\<close>
  statements on the fence markers, \<open>content.strip()\<close>.
\<close>

definition strip_fences :: "pystr \<Rightarrow> pystr" where
  "strip_fences message_content =
     (let c0 = py_strip message_content;
          c1 = (if startswith c0 (lit ''```json'') then drop 7 c0 else c0);
          c2 = (if startswith c1 (lit ''```'') then drop 3 c1 else c1);
          c3 = (if endswith c2 (lit ''```'') then take (length c2 - 3) c2 else c2)
      in py_strip c3)"

text \<open>\<open>key in summary\<close> for a string \<open>key\<close>.\<close>

fun py_in :: "pystr \<Rightarrow> json \<Rightarrow> exn + bool" where
  "py_in key (JObj kvs) = Inr (key \<in> set (map fst kvs))"
| "py_in key (JList xs) = Inr (JStr key \<in> set xs)"
| "py_in key (JStr s) = Inr (contains key s)"
| "py_in key v =
     Inl (TypeError (lit ''argument of type '' @ [39] @ type_name v @ [39] @ lit '' is not iterable''))"

text \<open>The loop over \<open>required_keys\<close>: the first key not in the summary raises.\<close>

fun check_required :: "pystr list \<Rightarrow> json \<Rightarrow> exn + unit" where
  "check_required [] summary = Inr ()"
| "check_required (key # keys) summary =
     (case py_in key summary of
        Inl e \<Rightarrow> Inl e
      | Inr present \<Rightarrow>
          if \<not> present
          then Inl (Exception (lit ''Missing required key '' @ [39] @ key @ [39]
                                 @ lit '' in OpenAI response''))
          else check_required keys summary)"

text \<open>\<open>summary[key]\<close> and \<open>summary[key] = v\<close> for a string \<open>key\<close>.\<close>

fun py_getitem :: "json \<Rightarrow> pystr \<Rightarrow> exn + json" where
  "py_getitem (JObj kvs) key =
     (case map_of kvs key of
        None \<Rightarrow> Inl (KeyError ([39] @ key @ [39]))
      | Some v \<Rightarrow> Inr v)"
| "py_getitem (JList xs) key =
     Inl (TypeError (lit ''list indices must be integers or slices, not str''))"
| "py_getitem (JStr s) key =
     Inl (TypeError (lit ''string indices must be integers, not '' @ [39] @ lit ''str'' @ [39]))"
| "py_getitem v key =
     Inl (TypeError ([39] @ type_name v @ [39] @ lit '' object is not subscriptable''))"

fun py_setitem :: "json \<Rightarrow> pystr \<Rightarrow> json \<Rightarrow> exn + json" where
  "py_setitem (JObj kvs) key v = Inr (JObj (AList.update key v kvs))"
| "py_setitem (JList xs) key v =
     Inl (TypeError (lit ''list indices must be integers or slices, not str''))"
| "py_setitem w key v =
     Inl (TypeError ([39] @ type_name w @ [39] @ lit '' object does not support item assignment''))"

text \<open>
  The block that makes the list field a list: the field is left alone when it is a
  list, and assigned otherwise.
\<close>

definition ensure_list :: "pystr \<Rightarrow> json \<Rightarrow> exn + json" where
  "ensure_list key summary =
     (case py_getitem summary key of
        Inl e \<Rightarrow> Inl e
      | Inr v \<Rightarrow>
          (case v of
             JList xs \<Rightarrow> Inr summary
           | JStr s \<Rightarrow> py_setitem summary key (JList [JStr s])
           | _ \<Rightarrow> py_setitem summary key (JList [])))"

text \<open>
  The outer \<open>except Exception as e\<close> of the two summarizers: \<open>markers\<close> are the strings
  looked for in \<open>str(e).lower()\<close>.
\<close>

definition summarize_handler :: "(pystr \<Rightarrow> pystr) \<Rightarrow> pystr list \<Rightarrow> exn \<Rightarrow> exn" where
  "summarize_handler lw markers e =
     (if \<exists>m \<in> set markers. contains m (lw (str_exn e))
      then Exception (lit ''OpenAI API authentication failed: '' @ str_exn e)
      else Exception (lit ''Error summarizing paper with OpenAI: '' @ str_exn e))"

text \<open>
  The body shared by \<open>summarize_paper_with_openai\<close> and \<open>summarize_paper\<close>, which differ
  in the prompt, the required keys, the list field and the markers. The service is a
  parameter: \<open>chat api_key text\<close> is the exception raised by the client, or
  \<open>response.choices[0].message.content\<close> (which may be \<open>None\<close>) for the request whose user
  prompt embeds \<open>text\<close>. \<open>loads\<close> is \<open>json.loads\<close>.
\<close>

definition summarize ::
  "(pystr \<Rightarrow> pystr) \<Rightarrow> (pystr \<Rightarrow> pystr \<Rightarrow> exn + pystr option) \<Rightarrow> (pystr \<Rightarrow> exn + json) \<Rightarrow>
   pystr list \<Rightarrow> pystr \<Rightarrow> pystr list \<Rightarrow> pystr \<Rightarrow> pystr \<Rightarrow> exn + json" where
  "summarize lw chat loads required_keys list_key markers text api_key =
     (case (case chat api_key text of
              Inl e \<Rightarrow> Inl e
            | Inr None \<Rightarrow>
                Inl (AttributeError ([39] @ lit ''NoneType'' @ [39]
                       @ lit '' object has no attribute '' @ [39] @ lit ''strip'' @ [39]))
            | Inr (Some message_content) \<Rightarrow>
                (let content = strip_fences message_content in
                 case loads content of
                   Inl (JSONDecodeError m) \<Rightarrow>
                     Inl (Exception (lit ''Failed to parse JSON from OpenAI response: '' @ m
                            @ lit ''. Response was: '' @ take 200 content))
                 | Inl e \<Rightarrow> Inl e
                 | Inr summary \<Rightarrow>
                     (case check_required required_keys summary of
                        Inl e \<Rightarrow> Inl e
                      | Inr u \<Rightarrow> ensure_list list_key summary))) of
        Inl e \<Rightarrow> Inl (summarize_handler lw markers e)
      | Inr summary \<Rightarrow> Inr summary)"

definition required_keys_A :: "pystr list" where
  "required_keys_A = [lit ''title'', lit ''abstract_summary'', lit ''key_points'', lit ''methodology'']"

definition required_keys_B :: "pystr list" where
  "required_keys_B = [lit ''title'', lit ''field_or_topic'', lit ''research_question'',
     lit ''methodology'', lit ''key_findings'', lit ''limitations'', lit ''personal_takeaway'']"

text \<open>\<open>summarize_paper_with_openai\<close> of \<open>app.py\<close> (Variant A).\<close>

definition summarize_paper_with_openai ::
  "(pystr \<Rightarrow> pystr) \<Rightarrow> (pystr \<Rightarrow> pystr \<Rightarrow> exn + pystr option) \<Rightarrow> (pystr \<Rightarrow> exn + json) \<Rightarrow>
   pystr \<Rightarrow> pystr \<Rightarrow> exn + json" where
  "summarize_paper_with_openai lw chat loads text api_key =
     summarize lw chat loads required_keys_A (lit ''key_points'')
       [lit ''api_key'', lit ''authentication''] text api_key"

text \<open>\<open>summarize_paper\<close> of \<open>paper_digest_assistant.py\<close> (Variant B).\<close>

definition summarize_paper ::
  "(pystr \<Rightarrow> pystr) \<Rightarrow> (pystr \<Rightarrow> pystr \<Rightarrow> exn + pystr option) \<Rightarrow> (pystr \<Rightarrow> exn + json) \<Rightarrow>
   pystr \<Rightarrow> pystr \<Rightarrow> exn + json" where
  "summarize_paper lw chat loads text api_key =
     summarize lw chat loads required_keys_B (lit ''key_findings'')
       [lit ''api_key'', lit ''authentication'', lit ''invalid''] text api_key"

section \<open>Record sink\<close>

fun decimal :: "nat \<Rightarrow> pystr" where
  "decimal n = (if n < 10 then [48 + n] else decimal (n div 10) @ [48 + n mod 10])"

text \<open>
  \<open>sep.join(items)\<close> for a list of Python values: the first item that is not a string
  raises \<open>TypeError\<close>. \<open>str_items i items\<close> are the strings of \<open>items\<close>, whose first
  element has index \<open>i\<close> in the joined sequence.
\<close>

fun str_items :: "nat \<Rightarrow> json list \<Rightarrow> exn + pystr list" where
  "str_items i [] = Inr []"
| "str_items i (JStr s # items) =
     (case str_items (Suc i) items of
        Inl e \<Rightarrow> Inl e
      | Inr ss \<Rightarrow> Inr (s # ss))"
| "str_items i (v # items) =
     Inl (TypeError (lit ''sequence item '' @ decimal i @ lit '': expected str instance, ''
            @ type_name v @ lit '' found''))"

definition join_values :: "pystr \<Rightarrow> json list \<Rightarrow> exn + pystr" where
  "join_values sep items =
     (case str_items 0 items of
        Inl e \<Rightarrow> Inl e
      | Inr ss \<Rightarrow> Inr (py_join sep ss))"

text \<open>
  The expression \<open>"\n- ".join([""] + key_points)\<close>, which \<open>insert_paper_record\<close> and
  \<open>main\<close> of \<open>app.py\<close> both use to flatten the list field.
\<close>

definition flatten_key_points :: "json list \<Rightarrow> exn + pystr" where
  "flatten_key_points key_points = join_values (10 # lit ''- '') (JStr [] # key_points)"

text \<open>
  \<open>insert_paper_record(supabase, data)\<close>. \<open>data\<close> is a reference to a dict that the
  caller owns as well, so the dicts live in a store and the function returns the store
  it leaves. \<open>db\<close> stands for \<open>supabase.table("papers").insert(data).execute()\<close>: the
  exception it raises, or \<open>result.data\<close> for the dict it is given.
\<close>

type_synonym store = "nat \<Rightarrow> dict"

definition insert_paper_record ::
  "(dict \<Rightarrow> exn + dict list) \<Rightarrow> store \<Rightarrow> nat \<Rightarrow> (exn + dict) \<times> store" where
  "insert_paper_record db h data =
     (case (case map_of (h data) (lit ''key_points'') of
              Some (JList key_points) \<Rightarrow>
                (case flatten_key_points key_points of
                   Inl e \<Rightarrow> Inl e
                 | Inr flat \<Rightarrow>
                     Inr (h(data := AList.update (lit ''key_points'') (JStr flat) (h data))))
            | _ \<Rightarrow> Inr h) of
        Inl e \<Rightarrow>
          (Inl (Exception (lit ''Error inserting paper record into Supabase: '' @ str_exn e)), h)
      | Inr h' \<Rightarrow>
          (case db (h' data) of
             Inl e \<Rightarrow>
               (Inl (Exception (lit ''Error inserting paper record into Supabase: ''
                       @ str_exn e)), h')
           | Inr [] \<Rightarrow>
               (Inl (Exception (lit ''Error inserting paper record into Supabase: ''
                       @ lit ''Failed to insert paper record: No data returned from Supabase'')),
                h')
           | Inr (row # rows) \<Rightarrow> (Inr row, h')))"

section \<open>The two applications\<close>

text \<open>\<open>a or b\<close> on two optional strings, and the test \<open>if not api_key\<close>.\<close>

definition py_or :: "pystr option \<Rightarrow> pystr option \<Rightarrow> pystr option" where
  "py_or a b = (case a of None \<Rightarrow> b | Some k \<Rightarrow> if k = [] then b else Some k)"

datatype 'a outcome = Rejected | Failed exn | Completed 'a

record 'a run =
  outcome :: "'a outcome"
  extractor_calls :: "pystr list"

text \<open>
  The dict that \<open>main\<close> of \<open>app.py\<close> builds for \<open>insert_paper_record\<close>, its entries
  evaluated in the order they are written.
\<close>

definition flat_or_str :: "json \<Rightarrow> exn + json" where
  "flat_or_str v =
     (case v of
        JStr s \<Rightarrow> Inr (JStr s)
      | JList key_points \<Rightarrow>
          (case flatten_key_points key_points of
             Inl e \<Rightarrow> Inl e
           | Inr flat \<Rightarrow> Inr (JStr flat))
      | _ \<Rightarrow>
          Inl (TypeError (lit ''can only concatenate list (not '' @ [34] @ type_name v @ [34]
                 @ lit '') to list'')))"

definition paper_record :: "pystr \<Rightarrow> json \<Rightarrow> exn + dict" where
  "paper_record paper_url summary =
     (case py_getitem summary (lit ''title'') of
        Inl e \<Rightarrow> Inl e
      | Inr title \<Rightarrow>
     (case py_getitem summary (lit ''abstract_summary'') of
        Inl e \<Rightarrow> Inl e
      | Inr abstract_summary \<Rightarrow>
     (case py_getitem summary (lit ''key_points'') of
        Inl e \<Rightarrow> Inl e
      | Inr kp \<Rightarrow>
     (case flat_or_str kp of
        Inl e \<Rightarrow> Inl e
      | Inr key_points \<Rightarrow>
     (case py_getitem summary (lit ''methodology'') of
        Inl e \<Rightarrow> Inl e
      | Inr methodology \<Rightarrow>
          Inr [(lit ''title'', title), (lit ''url'', JStr paper_url),
               (lit ''abstract_summary'', abstract_summary),
               (lit ''key_points'', key_points), (lit ''methodology'', methodology)])))))"

text \<open>
  The branch of \<open>main\<close> in \<open>app.py\<close> that runs when "Summarize & Save" is pressed.
  \<open>session_key\<close> is \<open>st.session_state.get("openai_api_key")\<close>, \<open>env_key\<close> is
  \<open>os.getenv("OPENAI_API_KEY")\<close>. \<open>extractor_calls\<close> lists the texts that
  \<open>summarize_paper_with_openai\<close> is called with.
\<close>

definition summarize_and_save ::
  "(pystr \<Rightarrow> pystr) \<Rightarrow> (pystr \<Rightarrow> exn + response) \<Rightarrow> (pystr \<Rightarrow> pystr \<Rightarrow> exn + pystr option) \<Rightarrow>
   (pystr \<Rightarrow> exn + json) \<Rightarrow> (dict \<Rightarrow> exn + dict list) \<Rightarrow>
   pystr option \<Rightarrow> pystr option \<Rightarrow> pystr \<Rightarrow> dict run" where
  "summarize_and_save lw http chat loads db session_key env_key paper_url =
     (case py_or session_key env_key of
        None \<Rightarrow> \<lparr>outcome = Rejected, extractor_calls = []\<rparr>
      | Some api_key \<Rightarrow>
          if api_key = [] then \<lparr>outcome = Rejected, extractor_calls = []\<rparr>
          else if paper_url = [] then \<lparr>outcome = Rejected, extractor_calls = []\<rparr>
          else
            (case fetch_content_from_url lw http paper_url of
               Inl e \<Rightarrow> \<lparr>outcome = Failed e, extractor_calls = []\<rparr>
             | Inr text \<Rightarrow>
                 (case summarize_paper_with_openai lw chat loads text api_key of
                    Inl e \<Rightarrow> \<lparr>outcome = Failed e, extractor_calls = [text]\<rparr>
                  | Inr summary \<Rightarrow>
                      (case paper_record paper_url summary of
                         Inl e \<Rightarrow> \<lparr>outcome = Failed e, extractor_calls = [text]\<rparr>
                       | Inr data \<Rightarrow>
                           (case fst (insert_paper_record db (\<lambda>r. data) 0) of
                              Inl e \<Rightarrow> \<lparr>outcome = Failed e, extractor_calls = [text]\<rparr>
                            | Inr row \<Rightarrow>
                                \<lparr>outcome = Completed row, extractor_calls = [text]\<rparr>)))))"

text \<open>
  \<open>main\<close> of \<open>paper_digest_assistant.py\<close>: the entries of \<open>st.session_state\<close> it uses,
  the "Fetch Content" button and the "Generate Digest" button up to the call of
  \<open>summarize_paper\<close> (the Word export and the display that follow are left out).
\<close>

datatype input_mode = URL | RawText

record session =
  openai_api_key :: "pystr option"
  paper_text :: "pystr option"
  source_type :: "pystr option"
  source_value :: "pystr option"

definition fetch_content :: "(pystr \<Rightarrow> pystr) \<Rightarrow> (pystr \<Rightarrow> exn + response) \<Rightarrow> session \<Rightarrow> pystr \<Rightarrow> session" where
  "fetch_content lw http st paper_url =
     (if paper_url = [] then st
      else
        (case (if is_pdf_url lw paper_url then fetch_pdf_text http paper_url 5
               else fetch_html_text http paper_url) of
           Inl e \<Rightarrow> st
         | Inr text \<Rightarrow>
             st\<lparr>paper_text := Some text, source_type := Some (lit ''url''),
                source_value := Some paper_url\<rparr>))"

definition generate_digest ::
  "(pystr \<Rightarrow> pystr) \<Rightarrow> (pystr \<Rightarrow> pystr \<Rightarrow> exn + pystr option) \<Rightarrow> (pystr \<Rightarrow> exn + json) \<Rightarrow>
   session \<Rightarrow> pystr option \<Rightarrow> input_mode \<Rightarrow> pystr \<Rightarrow> json run" where
  "generate_digest lw chat loads st env_key mode text_area =
     (case py_or (openai_api_key st) env_key of
        None \<Rightarrow> \<lparr>outcome = Rejected, extractor_calls = []\<rparr>
      | Some api_key \<Rightarrow>
          if api_key = [] then \<lparr>outcome = Rejected, extractor_calls = []\<rparr>
          else
            (case (case mode of
                     URL \<Rightarrow>
                       (case paper_text st of
                          None \<Rightarrow> None
                        | Some t \<Rightarrow> if t = [] then None else Some t)
                   | RawText \<Rightarrow>
                       if text_area = [] \<or> length (py_strip text_area) < 100 then None
                       else Some text_area) of
               None \<Rightarrow> \<lparr>outcome = Rejected, extractor_calls = []\<rparr>
             | Some text \<Rightarrow>
                 (case summarize_paper lw chat loads text api_key of
                    Inl e \<Rightarrow> \<lparr>outcome = Failed e, extractor_calls = [text]\<rparr>
                  | Inr summary \<Rightarrow> \<lparr>outcome = Completed summary, extractor_calls = [text]\<rparr>)))"

section \<open>Notions used to state the properties\<close>

text \<open>
  The text that \<open>main\<close> of \<open>paper_digest_assistant.py\<close> hands to \<open>clean_text\<close> for a
  response, through whichever of \<open>fetch_pdf_text\<close> and \<open>fetch_html_text\<close> it picks.
\<close>

definition digest_extract :: "(pystr \<Rightarrow> pystr) \<Rightarrow> pystr \<Rightarrow> response \<Rightarrow> exn + pystr" where
  "digest_extract lw paper_url resp =
     (if is_pdf_url lw paper_url
      then (case pdf_pages resp of
              Inl e \<Rightarrow> Inl e
            | Inr pages \<Rightarrow> Inr (pdf_full_text 5 pages))
      else Inr (html_full_text resp))"

text \<open>
  "Already normalized" in the words of the specification: no two adjacent whitespace
  characters, no whitespace at either end.
\<close>

fun no_adjacent_ws :: "pystr \<Rightarrow> bool" where
  "no_adjacent_ws (c # d # cs) = (\<not> (isspace c \<and> isspace d) \<and> no_adjacent_ws (d # cs))"
| "no_adjacent_ws cs = True"

definition spec_normalized :: "pystr \<Rightarrow> bool" where
  "spec_normalized s = (no_adjacent_ws s \<and> (s = [] \<or> (\<not> isspace (hd s) \<and> \<not> isspace (last s))))"

text \<open>
  The strings that the first two statements of \<open>clean_text\<close> leave as they are: not
  empty, starting with a character that is not whitespace, and every whitespace
  character is a space (U+0020) followed by a character that is not whitespace.
\<close>

fun single_spaces :: "pystr \<Rightarrow> bool" where
  "single_spaces [] = True"
| "single_spaces [c] = (\<not> isspace c)"
| "single_spaces (c # d # cs) =
     ((isspace c \<longrightarrow> c = 32 \<and> \<not> isspace d) \<and> single_spaces (d # cs))"

definition single_spaced :: "pystr \<Rightarrow> bool" where
  "single_spaced s = (s \<noteq> [] \<and> \<not> isspace (hd s) \<and> single_spaces s)"

text \<open>Removing a marker from the start or from the end of a string when it is there.\<close>

definition remove_leading :: "pystr \<Rightarrow> pystr \<Rightarrow> pystr" where
  "remove_leading marker s = (if startswith s marker then drop (length marker) s else s)"

definition remove_trailing :: "pystr \<Rightarrow> pystr \<Rightarrow> pystr" where
  "remove_trailing marker s =
     (if endswith s marker then take (length s - length marker) s else s)"

text \<open>
  The coercion of a list field in the words of the specification: a list as it is, a
  string wrapped into a one-element list, anything else the empty list.
\<close>

fun as_list :: "json \<Rightarrow> json" where
  "as_list (JList xs) = JList xs"
| "as_list (JStr s) = JList [JStr s]"
| "as_list v = JList []"

text \<open>
  The flattened list field in the words of the specification: each item prefixed with
  \<open>"- "\<close>, the items joined by newlines.
\<close>

definition spec_bulleted :: "pystr list \<Rightarrow> pystr" where
  "spec_bulleted xs = py_join [10] (map (\<lambda>x. lit ''- '' @ x) xs)"

text \<open>An answer with every required key of both variants, for the examples.\<close>

definition sample_answer :: dict where
  "sample_answer =
     [(lit ''title'', JStr (lit ''T'')), (lit ''abstract_summary'', JStr (lit ''S'')),
      (lit ''key_points'', JStr (lit ''one point'')), (lit ''methodology'', JStr (lit ''M'')),
      (lit ''field_or_topic'', JStr (lit ''F'')), (lit ''research_question'', JStr (lit ''Q'')),
      (lit ''key_findings'', JInt 3), (lit ''limitations'', JStr (lit ''L'')),
      (lit ''personal_takeaway'', JStr (lit ''W''))]"

text \<open>A short HTML page and a session holding only an API key, for the examples.\<close>

definition sample_page :: response where
  "sample_page = \<lparr>content_type = Some (lit ''text/html''),
     pdf_pages = Inl (Exception (lit ''not a PDF'')),
     soup_paragraphs = [lit ''abc''], soup_text = lit ''abc''\<rparr>"

definition sample_session :: session where
  "sample_session = \<lparr>openai_api_key = Some (lit ''sk-1''), paper_text = None,
     source_type = None, source_value = None\<rparr>"

section \<open>Facts about strings\<close>

lemma length_truncation_marker: "length truncation_marker = 15"
  by (simp add: truncation_marker_def lit_def)

lemma py_strip_id:
  assumes "s \<noteq> []" "\<not> isspace (hd s)" "\<not> isspace (last s)"
  shows "py_strip s = s"
proof -
  from assms have a: "dropWhile isspace s = s"
    by (cases s) simp_all
  from assms have "dropWhile isspace (rev s) = rev s"
    by (cases "rev s") (simp_all add: last_rev hd_rev)
  with a show ?thesis
    by (simp add: py_strip_def)
qed

lemma py_join_Cons: "ws \<noteq> [] \<Longrightarrow> py_join sep (w # ws) = w @ sep @ py_join sep ws"
  by (cases ws) simp_all

lemma split_aux_single_spaces:
  "single_spaces s \<Longrightarrow> cur \<noteq> [] \<or> s = [] \<or> \<not> isspace (hd s) \<Longrightarrow>
   py_join [32] (split_aux cur s) = cur @ s"
proof (induction s arbitrary: cur)
  case Nil
  then show ?case by simp
next
  case (Cons c cs)
  show ?case
  proof (cases "isspace c")
    case True
    with Cons.prems obtain d ds where cs: "cs = d # ds" and c: "c = 32" and d: "\<not> isspace d"
      by (cases cs) auto
    from Cons.prems True have cur: "cur \<noteq> []" by auto
    from Cons.prems cs have ok: "single_spaces cs" by simp
    have ih: "py_join [32] (split_aux [] cs) = cs"
      using Cons.IH [of "[]"] ok cs d by simp
    then have "split_aux [] cs \<noteq> []" using cs by auto
    then show ?thesis using True cur ih c by (simp add: py_join_Cons)
  next
    case False
    from Cons.prems have ok: "single_spaces cs" by (cases cs) auto
    show ?thesis using False Cons.IH [of "cur @ [c]"] ok by simp
  qed
qed

lemma single_spaces_last: "single_spaces s \<Longrightarrow> s \<noteq> [] \<Longrightarrow> \<not> isspace (last s)"
  by (induction s rule: single_spaces.induct) auto

lemma collapse_ws_id:
  assumes "single_spaces s" "s = [] \<or> \<not> isspace (hd s)"
  shows "collapse_ws s = s"
proof (cases "s = []")
  case True
  then show ?thesis by (simp add: collapse_ws_def py_split_def py_strip_def)
next
  case False
  have "py_join [32] (split_aux [] s) = s"
    using split_aux_single_spaces [of s "[]"] assms by auto
  moreover have "py_strip s = s"
    using False assms single_spaces_last by (intro py_strip_id) auto
  ultimately show ?thesis
    by (simp add: collapse_ws_def py_split_def lit_def)
qed



lemma length_py_strip_le: "length (py_strip s) \<le> length s"
proof -
  have "length (dropWhile isspace (rev (dropWhile isspace s))) \<le> length (rev (dropWhile isspace s))"
    by (rule length_dropWhile_le)
  also have "\<dots> \<le> length s"
    by (simp add: length_dropWhile_le)
  finally show ?thesis by (simp add: py_strip_def)
qed

lemma split_aux_words:
  "\<forall>c \<in> set cur. \<not> isspace c \<Longrightarrow> w \<in> set (split_aux cur s) \<Longrightarrow>
   w \<noteq> [] \<and> (\<forall>c \<in> set w. \<not> isspace c)"
proof (induction s arbitrary: cur)
  case Nil
  then show ?case by (auto split: if_splits)
next
  case (Cons c cs)
  show ?case
  proof (cases "isspace c")
    case True
    with Cons.prems have "w = cur \<and> cur \<noteq> [] \<or> w \<in> set (split_aux [] cs)"
      by (auto split: if_splits)
    then show ?thesis
      using Cons.IH [of "[]"] Cons.prems(1) by auto
  next
    case False
    with Cons.prems have "w \<in> set (split_aux (cur @ [c]) cs)" by simp
    moreover have "\<forall>d \<in> set (cur @ [c]). \<not> isspace d"
      using False Cons.prems(1) by auto
    ultimately show ?thesis using Cons.IH [of "cur @ [c]"] by blast
  qed
qed

lemma py_join_ends:
  "ws \<noteq> [] \<Longrightarrow> \<forall>w \<in> set ws. w \<noteq> [] \<Longrightarrow>
   py_join sep ws \<noteq> [] \<and> hd (py_join sep ws) = hd (hd ws) \<and> last (py_join sep ws) = last (last ws)"
proof (induction sep ws rule: py_join.induct)
  case (1 sep)
  then show ?case by simp
next
  case (2 sep x)
  then show ?case by simp
next
  case (3 sep x y ys)
  then have "py_join sep (y # ys) \<noteq> []" and "last (py_join sep (y # ys)) = last (last (y # ys))"
    by auto
  with 3 show ?case by (simp add: hd_append)
qed

lemma collapse_ws_ends:
  assumes "collapse_ws t \<noteq> []"
  shows "\<not> isspace (hd (collapse_ws t)) \<and> \<not> isspace (last (collapse_ws t))"
    and "collapse_ws t = py_join (lit '' '') (py_split t)"
proof -
  let ?ws = "py_split t"
  let ?j = "py_join (lit '' '') ?ws"
  have words: "\<forall>w \<in> set ?ws. w \<noteq> [] \<and> (\<forall>c \<in> set w. \<not> isspace c)"
    using split_aux_words [of "[]" _ t] by (auto simp: py_split_def)
  have ne: "?ws \<noteq> []"
  proof
    assume "?ws = []"
    then have "collapse_ws t = []" by (simp add: collapse_ws_def py_strip_def)
    with assms show False by simp
  qed
  from ne words have ends: "?j \<noteq> []" "hd ?j = hd (hd ?ws)" "last ?j = last (last ?ws)"
    using py_join_ends [of ?ws "lit '' ''"] by auto
  from ne words have "hd ?ws \<in> set ?ws" "last ?ws \<in> set ?ws" by auto
  with words have "hd (hd ?ws) \<in> set (hd ?ws)" "last (last ?ws) \<in> set (last ?ws)"
     "\<forall>c \<in> set (hd ?ws). \<not> isspace c" "\<forall>c \<in> set (last ?ws). \<not> isspace c"
    by auto
  then have "\<not> isspace (hd ?j)" "\<not> isspace (last ?j)"
    using ends by auto
  then have "py_strip ?j = ?j" using ends(1) by (intro py_strip_id) auto
  then show "collapse_ws t = ?j" by (simp add: collapse_ws_def)
  then show "\<not> isspace (hd (collapse_ws t)) \<and> \<not> isspace (last (collapse_ws t))"
    using \<open>\<not> isspace (hd ?j)\<close> \<open>\<not> isspace (last ?j)\<close> by simp
qed

lemma not_isspace_marker_last: "\<not> isspace (last truncation_marker)"
  by (simp add: truncation_marker_def lit_def isspace_def)

lemma clean_result_short:
  assumes "length (collapse_ws t) < 100" "100 \<le> m"
  shows "(let text1 = collapse_ws t;
              text2 = (if length text1 > m then take m text1 @ truncation_marker else text1)
          in text2 = [] \<or> length (py_strip text2) < 100)"
proof -
  have "length (py_strip (collapse_ws t)) < 100"
    using length_py_strip_le [of "collapse_ws t"] assms by simp
  with assms show ?thesis by (simp add: Let_def)
qed

lemma truncated_ok:
  assumes "length c > m" "85 \<le> m" "\<not> isspace (hd c)"
  shows "py_strip (take m c @ truncation_marker) = take m c @ truncation_marker"
    and "length (take m c @ truncation_marker) = m + 15"
proof -
  from assms have "take m c \<noteq> []" by auto
  then have "hd (take m c @ truncation_marker) = hd c"
    using assms by (simp add: hd_append)
  moreover have "last (take m c @ truncation_marker) = last truncation_marker"
    by (simp add: truncation_marker_def lit_def)
  ultimately show "py_strip (take m c @ truncation_marker) = take m c @ truncation_marker"
    using assms not_isspace_marker_last by (intro py_strip_id) auto
  show "length (take m c @ truncation_marker) = m + 15"
    using assms by (simp add: length_truncation_marker)
qed

lemma clean_text_truncates:
  assumes "length (collapse_ws t) > m" "85 \<le> m"
  shows "clean_text t m = Inr (take m (collapse_ws t) @ truncation_marker)"
proof -
  from assms have "collapse_ws t \<noteq> []" by auto
  then have "\<not> isspace (hd (collapse_ws t))" using collapse_ws_ends(1) by blast
  with assms have "py_strip (take m (collapse_ws t) @ truncation_marker) = take m (collapse_ws t) @ truncation_marker"
     "length (take m (collapse_ws t) @ truncation_marker) = m + 15"
    using truncated_ok by blast+
  with assms \<open>collapse_ws t \<noteq> []\<close> show ?thesis by (simp add: clean_text_def Let_def)
qed

lemma clean_fetched_eq: "clean_fetched t = (case clean_text t 10000 of Inl e \<Rightarrow> Inl (ValueError (lit
           ''Could not extract sufficient text from the URL. The content may be too short or inaccessible.'')) | Inr r \<Rightarrow> Inr r)"
  by (simp add: clean_fetched_def clean_text_def Let_def)

lemma clean_text_short:
  assumes "length (collapse_ws t) < 100" "100 \<le> m"
  shows "clean_text t m = Inl (ValueError (lit
           ''Extracted text is too short or empty. The content may be inaccessible.''))"
  using clean_result_short [OF assms] by (simp add: clean_text_def Let_def)

lemma clean_text_keeps:
  assumes "100 \<le> length (collapse_ws t)" "length (collapse_ws t) \<le> m"
  shows "clean_text t m = Inr (collapse_ws t)"
proof -
  from assms have ne: "collapse_ws t \<noteq> []" by auto
  then have "py_strip (collapse_ws t) = collapse_ws t"
    using collapse_ws_ends(1) [OF ne] by (intro py_strip_id) auto
  with assms ne show ?thesis by (simp add: clean_text_def Let_def)
qed

lemma no_ws_single_spaces: "\<forall>c \<in> set s. \<not> isspace c \<Longrightarrow> single_spaces s"
  by (induction s rule: single_spaces.induct) auto

lemma collapse_ws_no_ws: "\<forall>c \<in> set s. \<not> isspace c \<Longrightarrow> collapse_ws s = s"
  by (cases s) (auto intro!: collapse_ws_id no_ws_single_spaces)

lemma split_aux_word:
  "\<forall>c \<in> set u. \<not> isspace c \<Longrightarrow> split_aux cur (u @ s) = split_aux (cur @ u) s"
  by (induction u arbitrary: cur) simp_all

lemma split_aux_ws_run:
  "\<forall>c \<in> set ws. isspace c \<Longrightarrow> split_aux [] (ws @ s) = split_aux [] s"
  by (induction ws) simp_all

lemma collapse_ws_two_words:
  assumes u: "u \<noteq> []" "\<forall>c \<in> set u. \<not> isspace c"
    and v: "v \<noteq> []" "\<forall>c \<in> set v. \<not> isspace c"
    and ws: "ws \<noteq> []" "\<forall>c \<in> set ws. isspace c"
  shows "collapse_ws (u @ ws @ v) = u @ [32] @ v"
proof -
  obtain w ws' where w: "ws = w # ws'" using ws(1) by (cases ws) auto
  have "split_aux [] (u @ ws @ v) = split_aux u (w # ws' @ v)"
    using split_aux_word [OF u(2), of "[]"] w by simp
  also have "\<dots> = u # split_aux [] (ws' @ v)"
    using u(1) ws(2) w by simp
  also have "split_aux [] (ws' @ v) = split_aux [] v"
    using ws(2) w by (intro split_aux_ws_run) simp
  also have "split_aux [] v = split_aux v []"
    using split_aux_word [OF v(2), of "[]" "[]"] by simp
  finally have "py_split (u @ ws @ v) = [u, v]"
    using v(1) by (simp add: py_split_def)
  moreover have "py_strip (u @ [32] @ v) = u @ [32] @ v"
    using u v by (intro py_strip_id) (auto simp: hd_append)
  ultimately show ?thesis
    by (simp add: collapse_ws_def lit_def)
qed

lemma no_ws_no_adjacent: "\<forall>c \<in> set v. \<not> isspace c \<Longrightarrow> no_adjacent_ws v"
  by (induction v rule: no_adjacent_ws.induct) auto

lemma no_adjacent_ws_two_words:
  "\<forall>c \<in> set u. \<not> isspace c \<Longrightarrow> \<forall>c \<in> set v. \<not> isspace c \<Longrightarrow> no_adjacent_ws (u @ w # v)"
proof (induction u)
  case Nil
  then show ?case by (cases v) (simp_all add: no_ws_no_adjacent)
next
  case (Cons a u)
  then show ?case by (cases u) simp_all
qed

lemma single_spaces_two_words:
  "\<forall>c \<in> set u. \<not> isspace c \<Longrightarrow> v \<noteq> [] \<Longrightarrow> \<forall>c \<in> set v. \<not> isspace c \<Longrightarrow>
   single_spaces (u @ 32 # v)"
proof (induction u)
  case Nil
  then show ?case by (cases v) (simp_all add: no_ws_single_spaces)
next
  case (Cons a u)
  then show ?case by (cases u) simp_all
qed

lemma letter_not_space [simp]: "\<not> isspace 97"
  by (simp add: isspace_def)

section \<open>Text normalizer: properties\<close>

text \<open>
  C2. When the whitespace-collapsed, stripped form of the text is longer than 10000
  characters, \<open>clean_text\<close> and the cleaning block of \<open>fetch_content_from_url\<close> return a
  string of length \<open>10000 + len("... [truncated]") = 10015\<close>, whose characters from
  position 10000 on are the marker \<open>"... [truncated]"\<close> (the mark of truncation that the
  code gives) and whose first 10000 characters are those of the collapsed text.
\<close>

theorem long_text_truncated:
  assumes "length (collapse_ws text) > 10000"
  shows "\<exists>r. clean_text text 10000 = Inr r \<and> clean_fetched text = Inr r
           \<and> length r = 10000 + length (lit ''... [truncated]'') \<and> length r = 10015
           \<and> drop 10000 r = lit ''... [truncated]''
           \<and> take 10000 r = take 10000 (collapse_ws text)"
proof -
  let ?r = "take 10000 (collapse_ws text) @ truncation_marker"
  have a: "clean_text text 10000 = Inr ?r"
    using assms by (intro clean_text_truncates) simp_all
  then have b: "clean_fetched text = Inr ?r"
    by (simp add: clean_fetched_eq)
  have m: "truncation_marker = lit ''... [truncated]''"
    by (simp add: truncation_marker_def)
  have l: "length (take 10000 (collapse_ws text)) = 10000"
    using assms by simp
  have "length ?r = 10000 + length (lit ''... [truncated]'')" "length ?r = 10015"
    using l by (simp_all add: m [symmetric] length_truncation_marker)
  moreover have "drop 10000 ?r = lit ''... [truncated]''" "take 10000 ?r = take 10000 (collapse_ws text)"
    using l by (simp_all add: m)
  ultimately show ?thesis using a b by blast
qed

theorem long_text_truncated_witness:
  "length (collapse_ws (replicate 10001 97)) > 10000
   \<and> (\<exists>r. clean_text (replicate 10001 97) 10000 = Inr r \<and> clean_fetched (replicate 10001 97) = Inr r
           \<and> length r = 10000 + length (lit ''... [truncated]'') \<and> length r = 10015
           \<and> drop 10000 r = lit ''... [truncated]''
           \<and> take 10000 r = take 10000 (collapse_ws (replicate 10001 97)))"
proof -
  have c: "collapse_ws (replicate n 97) = replicate n 97" for n
    by (rule collapse_ws_no_ws) simp
  have h: "length (collapse_ws (replicate 10001 97)) > 10000"
    unfolding c length_replicate by simp
  show ?thesis
    by (rule conjI [OF h long_text_truncated [OF h]])
qed

text \<open>
  C9, as stated, fails on the code. \<open>"abc"\<close> has no whitespace and is below the cap, and
  \<open>clean_text\<close> raises on it instead of returning it; fifty letters, a tab and fifty
  letters have no two adjacent whitespace characters and no whitespace at the ends, and
  \<open>clean_text\<close> returns them with the tab replaced by a space.
\<close>

theorem normalized_text_changed:
  "spec_normalized (lit ''abc'') \<and> length (lit ''abc'') \<le> 10000
   \<and> clean_text (lit ''abc'') 10000 = Inl (ValueError (lit
        ''Extracted text is too short or empty. The content may be inaccessible.''))
   \<and> spec_normalized (replicate 50 97 @ [9] @ replicate 50 97)
   \<and> length (replicate 50 97 @ [9] @ replicate 50 (97::nat)) \<le> 10000
   \<and> clean_text (replicate 50 97 @ [9] @ replicate 50 97) 10000
       = Inr (replicate 50 97 @ [32] @ replicate 50 97)
   \<and> replicate 50 97 @ [32] @ replicate 50 97 \<noteq> replicate 50 97 @ [9] @ replicate 50 (97::nat)"
proof -
  have a1: "spec_normalized (lit ''abc'')"
    by (simp add: spec_normalized_def lit_def isspace_def)
  have a2: "length (lit ''abc'') \<le> 10000"
    by (simp add: lit_def)
  have "collapse_ws (lit ''abc'') = lit ''abc''"
    by (rule collapse_ws_no_ws) (simp add: lit_def isspace_def)
  then have "length (collapse_ws (lit ''abc'')) < 100"
    by (simp add: lit_def)
  then have a3: "clean_text (lit ''abc'') 10000 = Inl (ValueError (lit
        ''Extracted text is too short or empty. The content may be inaccessible.''))"
    by (rule clean_text_short) simp
  have hd_last: "hd (replicate 50 97 @ [9] @ replicate 50 (97::nat)) = 97"
      "last (replicate 50 97 @ [9] @ replicate 50 (97::nat)) = 97"
    by (simp_all add: hd_append)
  have "no_adjacent_ws (replicate 50 97 @ 9 # replicate 50 97)"
    by (rule no_adjacent_ws_two_words) simp_all
  then have b1: "spec_normalized (replicate 50 97 @ [9] @ replicate 50 97)"
    using hd_last by (simp add: spec_normalized_def)
  have b2: "length (replicate 50 97 @ [9] @ replicate 50 (97::nat)) \<le> 10000"
    by simp
  have c: "collapse_ws (replicate 50 97 @ [9] @ replicate 50 97) = replicate 50 97 @ [32] @ replicate 50 97"
    by (rule collapse_ws_two_words) (simp_all add: isspace_def)
  have "100 \<le> length (collapse_ws (replicate 50 97 @ [9] @ replicate 50 97))"
       "length (collapse_ws (replicate 50 97 @ [9] @ replicate 50 97)) \<le> 10000"
    unfolding c by simp_all
  then have b3: "clean_text (replicate 50 97 @ [9] @ replicate 50 97) 10000
       = Inr (replicate 50 97 @ [32] @ replicate 50 97)"
    using clean_text_keeps [of "replicate 50 97 @ [9] @ replicate 50 97" 10000] c by simp
  have b4: "replicate 50 97 @ [32] @ replicate 50 97 \<noteq> replicate 50 97 @ [9] @ replicate 50 (97::nat)"
    by simp
  show ?thesis
    by (intro conjI a1 a2 a3 b1 b2 b3 b4)
qed

text \<open>
  C9, amended. A string of at least 100 and at most 10000 characters that starts with a
  character that is not whitespace, and in which every whitespace character is a space
  (U+0020) followed by a character that is not whitespace, is returned unchanged by
  \<open>clean_text\<close> and by the cleaning block of \<open>fetch_content_from_url\<close>.
\<close>

theorem single_spaced_text_unchanged:
  assumes "single_spaced s" "100 \<le> length s" "length s \<le> 10000"
  shows "clean_text s 10000 = Inr s \<and> clean_fetched s = Inr s"
proof -
  from assms(1) have "collapse_ws s = s"
    by (intro collapse_ws_id) (simp_all add: single_spaced_def)
  with assms(2,3) have "clean_text s 10000 = Inr s"
    using clean_text_keeps [of s 10000] by simp
  then show ?thesis by (simp add: clean_fetched_eq)
qed

theorem single_spaced_text_unchanged_witness:
  "single_spaced (replicate 50 97 @ 32 # replicate 50 97)
   \<and> 100 \<le> length (replicate 50 97 @ 32 # replicate 50 (97::nat))
   \<and> length (replicate 50 97 @ 32 # replicate 50 (97::nat)) \<le> 10000
   \<and> clean_text (replicate 50 97 @ 32 # replicate 50 97) 10000
       = Inr (replicate 50 97 @ 32 # replicate 50 97)
   \<and> clean_fetched (replicate 50 97 @ 32 # replicate 50 97)
       = Inr (replicate 50 97 @ 32 # replicate 50 97)"
proof -
  have "single_spaces (replicate 50 97 @ 32 # replicate 50 97)"
    by (rule single_spaces_two_words) simp_all
  moreover have "hd (replicate 50 97 @ 32 # replicate 50 (97::nat)) = 97"
    by (simp add: hd_append)
  ultimately have a: "single_spaced (replicate 50 97 @ 32 # replicate 50 97)"
    by (simp add: single_spaced_def isspace_def)
  have b: "100 \<le> length (replicate 50 97 @ 32 # replicate 50 (97::nat))"
    by simp
  have c: "length (replicate 50 97 @ 32 # replicate 50 (97::nat)) \<le> 10000"
    by simp
  show ?thesis
    by (intro conjI a b c conjunct1 [OF single_spaced_text_unchanged [OF a b c]]
          conjunct2 [OF single_spaced_text_unchanged [OF a b c]])
qed

section \<open>Content fetcher and text extractor: properties\<close>

lemma startswith_iff: "startswith s p \<longleftrightarrow> (\<exists>post. s = p @ post)"
proof
  assume "startswith s p"
  then have "s = p @ drop (length p) s"
    by (metis append_take_drop_id startswith_def)
  then show "\<exists>post. s = p @ post" ..
next
  assume "\<exists>post. s = p @ post"
  then show "startswith s p" by (auto simp: startswith_def)
qed

lemma endswith_iff: "endswith s p \<longleftrightarrow> (\<exists>pre. s = pre @ p)"
proof
  assume "endswith s p"
  then have "s = take (length s - length p) s @ p"
    by (metis append_take_drop_id endswith_def)
  then show "\<exists>pre. s = pre @ p" ..
next
  assume "\<exists>pre. s = pre @ p"
  then show "endswith s p" by (auto simp: endswith_def)
qed

lemma contains_iff: "contains p s \<longleftrightarrow> (\<exists>pre post. s = pre @ p @ post)"
proof (induction s)
  case Nil
  then show ?case by auto
next
  case (Cons c cs)
  show ?case
  proof
    assume "contains p (c # cs)"
    then consider "startswith (c # cs) p" | "contains p cs" by auto
    then show "\<exists>pre post. c # cs = pre @ p @ post"
    proof cases
      case 1
      then obtain post where "c # cs = [] @ p @ post"
        by (auto simp: startswith_iff)
      then show ?thesis by blast
    next
      case 2
      then obtain pre post where "cs = pre @ p @ post"
        using Cons.IH by auto
      then have "c # cs = (c # pre) @ p @ post" by simp
      then show ?thesis by blast
    qed
  next
    assume "\<exists>pre post. c # cs = pre @ p @ post"
    then obtain pre post where e: "c # cs = pre @ p @ post" by auto
    show "contains p (c # cs)"
    proof (cases pre)
      case Nil
      with e have "startswith (c # cs) p" by (auto simp: startswith_iff)
      then show ?thesis by simp
    next
      case (Cons d pre')
      with e have "cs = pre' @ p @ post" by simp
      then have "contains p cs" using Cons.IH by blast
      then show ?thesis by simp
    qed
  qed
qed

lemma fold_read_pages:
  "n \<le> length pages \<Longrightarrow>
   fold (\<lambda>i (text_parts, reads). (text_parts @ [pages ! i], reads @ [i])) [0 ..< n] ([], [])
     = (take n pages, [0 ..< n])"
  by (induction n) (simp_all add: take_Suc_conv_app_nth)

lemma read_pdf_pages_eq:
  "read_pdf_pages max_pages pages
     = (take (min max_pages (length pages)) pages, [0 ..< min max_pages (length pages)])"
  unfolding read_pdf_pages_def by (rule fold_read_pages) simp

text \<open>
  C8. For a PDF whose reader gives the pages \<open>pages\<close>, the text is extracted from
  exactly the pages with index \<open>0, ..., min(5, len(pages)) - 1\<close>, in this order, and the
  extracted text is these page texts joined by \<open>"\n\n"\<close>; this is the text that
  \<open>fetch_content_from_url\<close> goes on with, and the text that \<open>fetch_pdf_text\<close> hands to
  \<open>clean_text\<close>.
\<close>

theorem pdf_reads_first_five_pages:
  assumes "pdf_pages resp = Inr pages" "is_pdf_response lw url (content_type resp)"
  shows "snd (read_pdf_pages 5 pages) = [0 ..< min 5 (length pages)]
       \<and> fst (read_pdf_pages 5 pages) = take (min 5 (length pages)) pages
       \<and> pdf_full_text 5 pages = py_join [10, 10] (take (min 5 (length pages)) pages)
       \<and> extract_full_text lw url resp
           = Inr (py_join [10, 10] (take (min 5 (length pages)) pages))"
  using assms
  by (simp add: read_pdf_pages_eq pdf_full_text_def blank_line_def extract_full_text_def)

theorem pdf_reads_first_five_pages_witness:
  "pdf_pages \<lparr>content_type = Some (lit ''application/pdf''),
       pdf_pages = Inr [lit ''p1'', lit ''p2'', lit ''p3'', lit ''p4'', lit ''p5'', lit ''p6'',
                        lit ''p7'', lit ''p8''],
       soup_paragraphs = [], soup_text = []\<rparr>
     = Inr [lit ''p1'', lit ''p2'', lit ''p3'', lit ''p4'', lit ''p5'', lit ''p6'', lit ''p7'', lit ''p8'']
   \<and> is_pdf_response ascii_lower (lit ''http://x/paper'') (Some (lit ''application/pdf''))
   \<and> snd (read_pdf_pages 5 [lit ''p1'', lit ''p2'', lit ''p3'', lit ''p4'', lit ''p5'', lit ''p6'',
                        lit ''p7'', lit ''p8'']) = [0, 1, 2, 3, 4]
   \<and> extract_full_text ascii_lower (lit ''http://x/paper'')
        \<lparr>content_type = Some (lit ''application/pdf''),
         pdf_pages = Inr [lit ''p1'', lit ''p2'', lit ''p3'', lit ''p4'', lit ''p5'', lit ''p6'',
                        lit ''p7'', lit ''p8''],
         soup_paragraphs = [], soup_text = []\<rparr>
      = Inr (lit ''p1'' @ [10, 10] @ lit ''p2'' @ [10, 10] @ lit ''p3'' @ [10, 10] @ lit ''p4''
             @ [10, 10] @ lit ''p5'')"
proof -
  let ?pages = "[lit ''p1'', lit ''p2'', lit ''p3'', lit ''p4'', lit ''p5'', lit ''p6'',
                        lit ''p7'', lit ''p8'']"
  let ?resp = "\<lparr>content_type = Some (lit ''application/pdf''), pdf_pages = Inr ?pages,
       soup_paragraphs = [], soup_text = []\<rparr>"
  have a: "pdf_pages ?resp = Inr ?pages"
    by simp
  have "contains (lit ''application/pdf'') (ascii_lower (lit ''application/pdf''))"
    by code_simp
  then have b: "is_pdf_response ascii_lower (lit ''http://x/paper'') (content_type ?resp)"
    by (simp add: is_pdf_response_def)
  have c: "[0 ..< min 5 (length ?pages)] = [0, 1, 2, 3, 4]"
    by (simp add: upt_rec)
  from pdf_reads_first_five_pages [OF a b] a b c show ?thesis
    by simp
qed

text \<open>
  C3, as stated, fails on the code: the URL \<open>http://x/a.pdf\<close> ends in \<open>.pdf\<close>, the declared
  content type \<open>text/html\<close> does not contain \<open>application/pdf\<close>, and
  \<open>fetch_content_from_url\<close> treats the response as a PDF: the extension decides, not the
  declared content type.
\<close>

theorem content_type_not_authoritative:
  "endswith (lit ''http://x/a.pdf'') (lit ''.pdf'')
   \<and> \<not> contains (lit ''application/pdf'') (ascii_lower (lit ''text/html''))
   \<and> is_pdf_response ascii_lower (lit ''http://x/a.pdf'') (Some (lit ''text/html''))"
proof -
  have a: "endswith (lit ''http://x/a.pdf'') (lit ''.pdf'')"
    by code_simp
  have b: "\<not> contains (lit ''application/pdf'') (ascii_lower (lit ''text/html''))"
    by code_simp
  from a have c: "is_pdf_response ascii_lower (lit ''http://x/a.pdf'') (Some (lit ''text/html''))"
    by (simp add: is_pdf_response_def)
  show ?thesis
    by (intro conjI a b c)
qed

text \<open>
  C3, amended. \<open>fetch_content_from_url\<close> treats a response as a PDF exactly when the URL
  string ends in \<open>.pdf\<close> or the lower-cased \<open>Content-Type\<close> header (the empty string when
  the header is absent) contains \<open>application/pdf\<close>. The two tests are a plain
  disjunction: a URL that ends in \<open>.pdf\<close> is a PDF whatever content type is declared.
  \<open>main\<close> of \<open>paper_digest_assistant.py\<close> decides before it fetches, on the URL alone:
  a PDF exactly when the lower-cased URL contains \<open>pdf\<close>.
\<close>

theorem pdf_classification:
  "(is_pdf_response lw url header \<longleftrightarrow>
      (\<exists>pre. url = pre @ lit ''.pdf'')
      \<or> (\<exists>pre post. lw (case header of None \<Rightarrow> [] | Some h \<Rightarrow> h)
             = pre @ lit ''application/pdf'' @ post))
   \<and> is_pdf_response lw (stem @ lit ''.pdf'') header
   \<and> (is_pdf_url lw url \<longleftrightarrow> (\<exists>pre post. lw url = pre @ lit ''pdf'' @ post))"
proof -
  have a: "is_pdf_response lw u header \<longleftrightarrow>
      (\<exists>pre. u = pre @ lit ''.pdf'')
      \<or> (\<exists>pre post. lw (case header of None \<Rightarrow> [] | Some h \<Rightarrow> h)
             = pre @ lit ''application/pdf'' @ post)" for u
    by (simp add: is_pdf_response_def endswith_iff contains_iff)
  have "\<exists>pre post. s = pre @ lit ''pdf'' @ post" if "\<exists>pre. s = pre @ lit ''.pdf''" for s
  proof -
    from that obtain pre where "s = pre @ lit ''.pdf''" by auto
    then have "s = (pre @ [46]) @ lit ''pdf'' @ []" by (simp add: lit_def)
    then show ?thesis by blast
  qed
  then have c: "is_pdf_url lw url \<longleftrightarrow> (\<exists>pre post. lw url = pre @ lit ''pdf'' @ post)"
    unfolding is_pdf_url_def endswith_iff contains_iff by blast
  have b: "is_pdf_response lw (stem @ lit ''.pdf'') header"
    unfolding a by blast
  show ?thesis
    using a [of url] b c by blast
qed

section \<open>Structured extractor: properties\<close>

lemma py_strip_ws_around:
  assumes "\<forall>c \<in> set w1. isspace c" "\<forall>c \<in> set w2. isspace c"
    and "body \<noteq> []" "\<not> isspace (hd body)" "\<not> isspace (last body)"
  shows "py_strip (w1 @ body @ w2) = body"
proof -
  from assms have "dropWhile isspace (w1 @ body @ w2) = body @ w2"
    by (cases body) (simp_all add: dropWhile_append)
  moreover from assms have "dropWhile isspace (rev w2 @ rev body) = rev body"
    by (cases "rev body") (simp_all add: dropWhile_append last_rev hd_rev)
  ultimately show ?thesis
    by (simp add: py_strip_def)
qed

lemma strip_fences_eq:
  "strip_fences r = py_strip (remove_trailing (lit ''```'')
      (remove_leading (lit ''```'') (remove_leading (lit ''```json'') (py_strip r))))"
proof -
  have l: "length (lit ''```json'') = 7" "length (lit ''```'') = 3"
    by (simp_all add: lit_def)
  show ?thesis
    by (simp only: strip_fences_def remove_leading_def remove_trailing_def Let_def l)
qed

lemma fence_not_space: "\<not> isspace 96" "\<not> isspace 123" "\<not> isspace 125"
  by (simp_all add: isspace_def)

lemma strip_fences_fenced:
  assumes body: "body \<noteq> []" "hd body = 123" "last body = 125"
    and ws: "\<forall>c \<in> set w0. isspace c" "\<forall>c \<in> set w1. isspace c"
      "\<forall>c \<in> set w2. isspace c" "\<forall>c \<in> set w3. isspace c"
  shows "strip_fences (w0 @ lit ''```json'' @ w1 @ body @ w2 @ lit ''```'' @ w3) = body"
proof -
  let ?inner = "w1 @ body @ w2"
  let ?fenced = "lit ''```json'' @ ?inner @ lit ''```''"
  have s0: "py_strip (w0 @ ?fenced @ w3) = ?fenced"
    using ws(1,4) by (intro py_strip_ws_around) (simp_all add: lit_def fence_not_space)
  have s1: "startswith ?fenced (lit ''```json'')"
    by (simp add: startswith_iff)
  have d1: "drop 7 ?fenced = ?inner @ lit ''```''"
    by (simp add: lit_def)
  have "hd (?inner @ lit ''```'') \<noteq> 96"
  proof (cases w1)
    case Nil
    with body show ?thesis by (simp add: hd_append)
  next
    case (Cons c cs)
    with ws(2) have "isspace c" by simp
    with Cons show ?thesis using fence_not_space(1) by auto
  qed
  moreover have "?inner @ lit ''```'' \<noteq> []" using body by simp
  ultimately have s2: "\<not> startswith (?inner @ lit ''```'') (lit ''```'')"
    by (cases "?inner @ lit ''```''") (auto simp: startswith_def lit_def)
  have s3: "endswith (?inner @ lit ''```'') (lit ''```'')"
    unfolding endswith_iff by blast
  have d3: "take (length (?inner @ lit ''```'') - 3) (?inner @ lit ''```'') = ?inner"
    by (simp add: lit_def)
  have s4: "py_strip ?inner = body"
    using ws(2,3) body by (intro py_strip_ws_around) (simp_all add: fence_not_space)
  have "strip_fences (w0 @ ?fenced @ w3) = body"
    unfolding strip_fences_def Let_def s0 using s1 s2 s3 s4
    by (simp only: if_True if_False d1 d3)
  then show ?thesis by simp
qed

lemma check_required_obj:
  "check_required req (JObj kvs) =
     (case find (\<lambda>k. k \<notin> fst ` set kvs) req of
        None \<Rightarrow> Inr ()
      | Some k \<Rightarrow> Inl (Exception (lit ''Missing required key '' @ [39] @ k @ [39]
                                 @ lit '' in OpenAI response'')))"
  by (induction req) simp_all

lemma summarize_obj:
  assumes "chat api_key text = Inr (Some r)" "loads (strip_fences r) = Inr (JObj kvs)"
  shows "summarize lw chat loads req lk markers text api_key =
     (case check_required req (JObj kvs) of
        Inl e \<Rightarrow> Inl (summarize_handler lw markers e)
      | Inr u \<Rightarrow>
          (case ensure_list lk (JObj kvs) of
             Inl e \<Rightarrow> Inl (summarize_handler lw markers e)
           | Inr s \<Rightarrow> Inr s))"
  using assms by (simp add: summarize_def Let_def split: sum.splits)

lemma ensure_list_obj:
  assumes "map_of kvs lk = Some v"
  shows "ensure_list lk (JObj kvs) = Inr (JObj (AList.update lk (as_list v) kvs))"
proof -
  have "AList.update lk v kvs = kvs"
    using assms by (rule update_triv)
  with assms show ?thesis
    by (cases v) (simp_all add: ensure_list_def)
qed

lemma summarize_all_present:
  assumes "chat api_key text = Inr (Some r)" "loads (strip_fences r) = Inr (JObj kvs)"
    and "set req \<subseteq> fst ` set kvs" "lk \<in> set req"
  shows "\<exists>v. map_of kvs lk = Some v
     \<and> summarize lw chat loads req lk markers text api_key
         = Inr (JObj (AList.update lk (as_list v) kvs))
     \<and> (as_list v = v \<longrightarrow> summarize lw chat loads req lk markers text api_key = Inr (JObj kvs))"
proof -
  from assms(3,4) have "lk \<in> fst ` set kvs" by auto
  then obtain v where v: "map_of kvs lk = Some v"
    by (metis map_of_eq_None_iff not_Some_eq)
  from assms(3) have "find (\<lambda>k. k \<notin> fst ` set kvs) req = None"
    by (auto simp: find_None_iff)
  moreover have "summarize lw chat loads req lk markers text api_key =
     (case check_required req (JObj kvs) of
        Inl e \<Rightarrow> Inl (summarize_handler lw markers e)
      | Inr u \<Rightarrow>
          (case ensure_list lk (JObj kvs) of
             Inl e \<Rightarrow> Inl (summarize_handler lw markers e)
           | Inr s \<Rightarrow> Inr s))"
    using assms(1,2) by (rule summarize_obj)
  ultimately have r: "summarize lw chat loads req lk markers text api_key
         = Inr (JObj (AList.update lk (as_list v) kvs))"
    using v by (simp add: check_required_obj ensure_list_obj)
  moreover have "AList.update lk v kvs = kvs"
    using v by (rule update_triv)
  ultimately show ?thesis using v by auto
qed

lemma missing_message_A:
  "\<forall>k \<in> set required_keys_A.
     (\<forall>c \<in> set (lit ''Missing required key '' @ [39] @ k @ [39] @ lit '' in OpenAI response'').
        c < 128)
     \<and> \<not> contains (lit ''api_key'')
           (ascii_lower (lit ''Missing required key '' @ [39] @ k @ [39] @ lit '' in OpenAI response''))
     \<and> \<not> contains (lit ''authentication'')
           (ascii_lower (lit ''Missing required key '' @ [39] @ k @ [39] @ lit '' in OpenAI response''))"
  by (simp add: required_keys_A_def lit_def ascii_lower_def startswith_def)

lemma missing_message_B:
  "\<forall>k \<in> set required_keys_B.
     (\<forall>c \<in> set (lit ''Missing required key '' @ [39] @ k @ [39] @ lit '' in OpenAI response'').
        c < 128)
     \<and> \<not> contains (lit ''api_key'')
           (ascii_lower (lit ''Missing required key '' @ [39] @ k @ [39] @ lit '' in OpenAI response''))
     \<and> \<not> contains (lit ''authentication'')
           (ascii_lower (lit ''Missing required key '' @ [39] @ k @ [39] @ lit '' in OpenAI response''))
     \<and> \<not> contains (lit ''invalid'')
           (ascii_lower (lit ''Missing required key '' @ [39] @ k @ [39] @ lit '' in OpenAI response''))"
  by (simp add: required_keys_B_def lit_def ascii_lower_def startswith_def)

lemma summarize_first_missing:
  assumes "chat api_key text = Inr (Some r)" "loads (strip_fences r) = Inr (JObj kvs)"
    and "find (\<lambda>k. k \<notin> fst ` set kvs) req = Some k"
    and "\<forall>m \<in> set markers. \<not> contains m (lw (lit ''Missing required key '' @ [39] @ k @ [39]
            @ lit '' in OpenAI response''))"
  shows "summarize lw chat loads req lk markers text api_key
     = Inl (Exception (lit ''Error summarizing paper with OpenAI: ''
          @ lit ''Missing required key '' @ [39] @ k @ [39] @ lit '' in OpenAI response''))"
proof -
  have "summarize lw chat loads req lk markers text api_key =
     (case check_required req (JObj kvs) of
        Inl e \<Rightarrow> Inl (summarize_handler lw markers e)
      | Inr u \<Rightarrow>
          (case ensure_list lk (JObj kvs) of
             Inl e \<Rightarrow> Inl (summarize_handler lw markers e)
           | Inr s \<Rightarrow> Inr s))"
    using assms(1,2) by (rule summarize_obj)
  then show ?thesis
    using assms(3,4) by (simp add: check_required_obj summarize_handler_def)
qed

lemma find_missing:
  "\<not> set req \<subseteq> fst ` set kvs \<Longrightarrow> \<exists>k. find (\<lambda>k. k \<notin> fst ` set kvs) req = Some k \<and> k \<in> set req"
  by (cases "find (\<lambda>k. k \<notin> fst ` set kvs) req") (auto simp: find_None_iff find_Some_iff)

lemma lowers_ascii_ascii_lower: "lowers_ascii ascii_lower"
  by (simp add: lowers_ascii_def)

lemma missing_key_A:
  assumes "lowers_ascii lw" "chat api_key text = Inr (Some r)"
    "loads (strip_fences r) = Inr (JObj kvs)"
    "find (\<lambda>k. k \<notin> fst ` set kvs) required_keys_A = Some k"
  shows "summarize_paper_with_openai lw chat loads text api_key
     = Inl (Exception (lit ''Error summarizing paper with OpenAI: Missing required key ''
              @ [39] @ k @ [39] @ lit '' in OpenAI response''))"
proof -
  let ?m = "lit ''Missing required key '' @ [39] @ k @ [39] @ lit '' in OpenAI response''"
  from assms(4) have k: "k \<in> set required_keys_A"
    by (auto simp: find_Some_iff)
  with missing_message_A have ascii: "\<forall>c \<in> set ?m. c < 128"
    and no: "\<not> contains (lit ''api_key'') (ascii_lower ?m)"
      "\<not> contains (lit ''authentication'') (ascii_lower ?m)"
    by blast+
  from ascii assms(1) have "lw ?m = ascii_lower ?m"
    unfolding lowers_ascii_def by blast
  with no have "\<forall>m \<in> set [lit ''api_key'', lit ''authentication'']. \<not> contains m (lw ?m)"
    by simp
  with assms(2,3,4) have "summarize lw chat loads required_keys_A (lit ''key_points'')
       [lit ''api_key'', lit ''authentication''] text api_key
     = Inl (Exception (lit ''Error summarizing paper with OpenAI: '' @ ?m))"
    by (rule summarize_first_missing)
  then show ?thesis
    by (simp add: summarize_paper_with_openai_def lit_def)
qed

lemma missing_key_B:
  assumes "lowers_ascii lw" "chat api_key text = Inr (Some r)"
    "loads (strip_fences r) = Inr (JObj kvs)"
    "find (\<lambda>k. k \<notin> fst ` set kvs) required_keys_B = Some k"
  shows "summarize_paper lw chat loads text api_key
     = Inl (Exception (lit ''Error summarizing paper with OpenAI: Missing required key ''
              @ [39] @ k @ [39] @ lit '' in OpenAI response''))"
proof -
  let ?m = "lit ''Missing required key '' @ [39] @ k @ [39] @ lit '' in OpenAI response''"
  from assms(4) have k: "k \<in> set required_keys_B"
    by (auto simp: find_Some_iff)
  with missing_message_B have ascii: "\<forall>c \<in> set ?m. c < 128"
    and no: "\<not> contains (lit ''api_key'') (ascii_lower ?m)"
      "\<not> contains (lit ''authentication'') (ascii_lower ?m)"
      "\<not> contains (lit ''invalid'') (ascii_lower ?m)"
    by blast+
  from ascii assms(1) have "lw ?m = ascii_lower ?m"
    unfolding lowers_ascii_def by blast
  with no have "\<forall>m \<in> set [lit ''api_key'', lit ''authentication'', lit ''invalid''].
      \<not> contains m (lw ?m)"
    by simp
  with assms(2,3,4) have "summarize lw chat loads required_keys_B (lit ''key_findings'')
       [lit ''api_key'', lit ''authentication'', lit ''invalid''] text api_key
     = Inl (Exception (lit ''Error summarizing paper with OpenAI: '' @ ?m))"
    by (rule summarize_first_missing)
  then show ?thesis
    by (simp add: summarize_paper_def lit_def)
qed

text \<open>
  C5. When the parsed answer is a JSON object that lacks a required key of the variant,
  the summarizer raises, and the message it raises with names the first required key, in
  the order of \<open>required_keys\<close>, that the object lacks: it is
  \<open>"Error summarizing paper with OpenAI: Missing required key 'k' in OpenAI response"\<close>
  (the code raises a plain \<open>Exception\<close>). For the Variant A answer \<open>{"title": "X"}\<close> the
  key is \<open>abstract_summary\<close>.
\<close>

theorem missing_required_key_named:
  assumes "lowers_ascii lw" "chat api_key text = Inr (Some r)"
    "loads (strip_fences r) = Inr (JObj kvs)"
  shows "(\<not> set required_keys_A \<subseteq> fst ` set kvs \<longrightarrow>
            (\<exists>k. find (\<lambda>k. k \<notin> fst ` set kvs) required_keys_A = Some k
               \<and> summarize_paper_with_openai lw chat loads text api_key
                   = Inl (Exception (lit ''Error summarizing paper with OpenAI: Missing required key ''
                            @ [39] @ k @ [39] @ lit '' in OpenAI response''))))
       \<and> (\<not> set required_keys_B \<subseteq> fst ` set kvs \<longrightarrow>
            (\<exists>k. find (\<lambda>k. k \<notin> fst ` set kvs) required_keys_B = Some k
               \<and> summarize_paper lw chat loads text api_key
                   = Inl (Exception (lit ''Error summarizing paper with OpenAI: Missing required key ''
                            @ [39] @ k @ [39] @ lit '' in OpenAI response''))))
       \<and> (kvs = [(lit ''title'', JStr (lit ''X''))] \<longrightarrow>
            summarize_paper_with_openai lw chat loads text api_key
              = Inl (Exception (lit
                  ''Error summarizing paper with OpenAI: Missing required key 'abstract_summary' in OpenAI response'')))"
proof (intro conjI impI)
  assume a: "\<not> set required_keys_A \<subseteq> fst ` set kvs"
  from find_missing [OF a] obtain k
    where k: "find (\<lambda>k. k \<notin> fst ` set kvs) required_keys_A = Some k"
    by (elim exE conjE)
  show "\<exists>k. find (\<lambda>k. k \<notin> fst ` set kvs) required_keys_A = Some k
               \<and> summarize_paper_with_openai lw chat loads text api_key
                   = Inl (Exception (lit ''Error summarizing paper with OpenAI: Missing required key ''
                            @ [39] @ k @ [39] @ lit '' in OpenAI response''))"
  proof (intro exI conjI)
    show "find (\<lambda>k. k \<notin> fst ` set kvs) required_keys_A = Some k"
      by (rule k)
    from assms k show "summarize_paper_with_openai lw chat loads text api_key
        = Inl (Exception (lit ''Error summarizing paper with OpenAI: Missing required key ''
                            @ [39] @ k @ [39] @ lit '' in OpenAI response''))"
      by (rule missing_key_A)
  qed
next
  assume b: "\<not> set required_keys_B \<subseteq> fst ` set kvs"
  from find_missing [OF b] obtain k
    where k: "find (\<lambda>k. k \<notin> fst ` set kvs) required_keys_B = Some k"
    by (elim exE conjE)
  show "\<exists>k. find (\<lambda>k. k \<notin> fst ` set kvs) required_keys_B = Some k
               \<and> summarize_paper lw chat loads text api_key
                   = Inl (Exception (lit ''Error summarizing paper with OpenAI: Missing required key ''
                            @ [39] @ k @ [39] @ lit '' in OpenAI response''))"
  proof (intro exI conjI)
    show "find (\<lambda>k. k \<notin> fst ` set kvs) required_keys_B = Some k"
      by (rule k)
    from assms k show "summarize_paper lw chat loads text api_key
        = Inl (Exception (lit ''Error summarizing paper with OpenAI: Missing required key ''
                            @ [39] @ k @ [39] @ lit '' in OpenAI response''))"
      by (rule missing_key_B)
  qed
next
  assume kvs: "kvs = [(lit ''title'', JStr (lit ''X''))]"
  have f: "find (\<lambda>k. k \<notin> fst ` set kvs) required_keys_A = Some (lit ''abstract_summary'')"
    unfolding kvs by (simp add: required_keys_A_def lit_def)
  have "lit ''Error summarizing paper with OpenAI: Missing required key 'abstract_summary' in OpenAI response''
      = lit ''Error summarizing paper with OpenAI: Missing required key ''
                            @ [39] @ lit ''abstract_summary'' @ [39] @ lit '' in OpenAI response''"
    by (simp add: lit_def)
  moreover from assms f have "summarize_paper_with_openai lw chat loads text api_key
        = Inl (Exception (lit ''Error summarizing paper with OpenAI: Missing required key ''
                            @ [39] @ lit ''abstract_summary'' @ [39] @ lit '' in OpenAI response''))"
    by (rule missing_key_A)
  ultimately show "summarize_paper_with_openai lw chat loads text api_key
              = Inl (Exception (lit
                  ''Error summarizing paper with OpenAI: Missing required key 'abstract_summary' in OpenAI response''))"
    by (simp only:)
qed


theorem missing_required_key_named_witness:
  "lowers_ascii ascii_lower
   \<and> (\<lambda>k t. Inr (Some (lit ''{\"title\": \"X\"}''))) (lit ''sk-1'') (lit ''paper'')
       = (Inr (Some (lit ''{\"title\": \"X\"}'')) :: exn + pystr option)
   \<and> (\<lambda>s. Inr (JObj [(lit ''title'', JStr (lit ''X''))])) (strip_fences (lit ''{\"title\": \"X\"}''))
       = (Inr (JObj [(lit ''title'', JStr (lit ''X''))]) :: exn + json)
   \<and> \<not> set required_keys_A \<subseteq> fst ` set [(lit ''title'', JStr (lit ''X''))]
   \<and> \<not> set required_keys_B \<subseteq> fst ` set [(lit ''title'', JStr (lit ''X''))]
   \<and> summarize_paper_with_openai ascii_lower (\<lambda>k t. Inr (Some (lit ''{\"title\": \"X\"}'')))
        (\<lambda>s. Inr (JObj [(lit ''title'', JStr (lit ''X''))])) (lit ''paper'') (lit ''sk-1'')
       = Inl (Exception (lit
           ''Error summarizing paper with OpenAI: Missing required key 'abstract_summary' in OpenAI response''))
   \<and> summarize_paper ascii_lower (\<lambda>k t. Inr (Some (lit ''{\"title\": \"X\"}'')))
        (\<lambda>s. Inr (JObj [(lit ''title'', JStr (lit ''X''))])) (lit ''paper'') (lit ''sk-1'')
       = Inl (Exception (lit
           ''Error summarizing paper with OpenAI: Missing required key 'field_or_topic' in OpenAI response''))"
proof -
  let ?chat = "\<lambda>k t. Inr (Some (lit ''{\"title\": \"X\"}'')) :: exn + pystr option"
  let ?kvs = "[(lit ''title'', JStr (lit ''X''))]"
  let ?loads = "\<lambda>s. Inr (JObj ?kvs) :: exn + json"
  have h1: "?chat (lit ''sk-1'') (lit ''paper'') = Inr (Some (lit ''{\"title\": \"X\"}''))"
    by simp
  have h2: "?loads (strip_fences (lit ''{\"title\": \"X\"}'')) = Inr (JObj ?kvs)"
    by simp
  have a: "\<not> set required_keys_A \<subseteq> fst ` set ?kvs"
    by (simp add: required_keys_A_def lit_def)
  have b: "\<not> set required_keys_B \<subseteq> fst ` set ?kvs"
    by (simp add: required_keys_B_def lit_def)
  have fb: "find (\<lambda>k. k \<notin> fst ` set ?kvs) required_keys_B = Some (lit ''field_or_topic'')"
    by (simp add: required_keys_B_def lit_def)
  note t = missing_required_key_named [of ascii_lower "?chat" "lit ''sk-1''" "lit ''paper''"
      "lit ''{\"title\": \"X\"}''" "?loads" "?kvs", OF lowers_ascii_ascii_lower h1 h2]
  have ra: "summarize_paper_with_openai ascii_lower ?chat ?loads (lit ''paper'') (lit ''sk-1'')
       = Inl (Exception (lit
           ''Error summarizing paper with OpenAI: Missing required key 'abstract_summary' in OpenAI response''))"
    by (rule t [THEN conjunct2, THEN conjunct2, rule_format, OF refl])
  from t [THEN conjunct2, THEN conjunct1, rule_format, OF b] obtain k
    where k: "find (\<lambda>k. k \<notin> fst ` set ?kvs) required_keys_B = Some k"
      and r: "summarize_paper ascii_lower ?chat ?loads (lit ''paper'') (lit ''sk-1'')
        = Inl (Exception (lit ''Error summarizing paper with OpenAI: Missing required key ''
                            @ [39] @ k @ [39] @ lit '' in OpenAI response''))"
    by (elim exE conjE)
  from k fb have "k = lit ''field_or_topic''"
    by simp
  then have rb: "summarize_paper ascii_lower ?chat ?loads (lit ''paper'') (lit ''sk-1'')
       = Inl (Exception (lit
           ''Error summarizing paper with OpenAI: Missing required key 'field_or_topic' in OpenAI response''))"
    unfolding r by (simp add: lit_def)
  show ?thesis
    by (intro conjI lowers_ascii_ascii_lower h1 h2 a b ra rb)
qed

lemma strip_fences_plain:
  assumes body: "body \<noteq> []" "hd body = 123" "last body = 125"
    and ws: "\<forall>c \<in> set w0. isspace c" "\<forall>c \<in> set w1. isspace c"
      "\<forall>c \<in> set w2. isspace c" "\<forall>c \<in> set w3. isspace c"
  shows "strip_fences (w0 @ lit ''```'' @ w1 @ body @ w2 @ lit ''```'' @ w3) = body"
proof -
  let ?inner = "w1 @ body @ w2"
  let ?fenced = "lit ''```'' @ ?inner @ lit ''```''"
  have s0: "py_strip (w0 @ ?fenced @ w3) = ?fenced"
    using ws(1,4) by (intro py_strip_ws_around) (simp_all add: lit_def fence_not_space)
  have h: "hd (?inner @ lit ''```'') \<noteq> 96 \<and> hd (?inner @ lit ''```'') \<noteq> 106"
  proof (cases w1)
    case Nil
    with body show ?thesis by (simp add: hd_append)
  next
    case (Cons c cs)
    with ws(2) have "isspace c" by simp
    then have "c \<noteq> 96 \<and> c \<noteq> 106" by (auto simp: isspace_def)
    with Cons show ?thesis by simp
  qed
  have ne: "?inner @ lit ''```'' \<noteq> []" using body by simp
  have s1: "\<not> startswith ?fenced (lit ''```json'')"
    using h ne by (cases "?inner @ lit ''```''") (auto simp: startswith_def lit_def)
  have s2a: "startswith ?fenced (lit ''```'')"
    by (simp add: startswith_iff)
  have d2: "drop 3 ?fenced = ?inner @ lit ''```''"
    by (simp add: lit_def)
  have s3: "endswith (?inner @ lit ''```'') (lit ''```'')"
    unfolding endswith_iff by blast
  have d3: "take (length (?inner @ lit ''```'') - 3) (?inner @ lit ''```'') = ?inner"
    by (simp add: lit_def)
  have s4: "py_strip ?inner = body"
    using ws(2,3) body by (intro py_strip_ws_around) (simp_all add: fence_not_space)
  have "strip_fences (w0 @ ?fenced @ w3) = body"
    unfolding strip_fences_def Let_def s0 using s1 s2a s3 s4
    by (simp only: if_True if_False d2 d3)
  then show ?thesis by simp
qed

lemma strip_fences_bare:
  assumes body: "body \<noteq> []" "hd body = 123" "last body = 125"
    and ws: "\<forall>c \<in> set w0. isspace c" "\<forall>c \<in> set w3. isspace c"
  shows "strip_fences (w0 @ body @ w3) = body"
proof -
  have s0: "py_strip (w0 @ body @ w3) = body"
    using ws body by (intro py_strip_ws_around) (simp_all add: fence_not_space)
  have s00: "py_strip body = body"
    using body by (intro py_strip_id) (simp_all add: fence_not_space)
  from body have s1: "\<not> startswith body (lit ''```json'')" "\<not> startswith body (lit ''```'')"
    by (cases body; auto simp: startswith_def lit_def)+
  have s3: "\<not> endswith body (lit ''```'')"
  proof
    assume "endswith body (lit ''```'')"
    then obtain pre where "body = pre @ lit ''```''" by (auto simp: endswith_iff)
    then have "last body = 96" by (simp add: lit_def)
    with body show False by simp
  qed
  show ?thesis
    unfolding strip_fences_def Let_def s0 using s1 s3 s00
    by (simp only: if_False)
qed

lemma summarize_A_present:
  assumes "chat api_key text = Inr (Some r)" "loads (strip_fences r) = Inr (JObj kvs)"
    and "set required_keys_A \<subseteq> fst ` set kvs"
  shows "\<exists>v. map_of kvs (lit ''key_points'') = Some v
     \<and> summarize_paper_with_openai lw chat loads text api_key
         = Inr (JObj (AList.update (lit ''key_points'') (as_list v) kvs))
     \<and> (as_list v = v \<longrightarrow> summarize_paper_with_openai lw chat loads text api_key = Inr (JObj kvs))"
proof -
  have "lit ''key_points'' \<in> set required_keys_A"
    by (simp add: required_keys_A_def)
  with assms show ?thesis
    unfolding summarize_paper_with_openai_def by (rule summarize_all_present)
qed

lemma summarize_B_present:
  assumes "chat api_key text = Inr (Some r)" "loads (strip_fences r) = Inr (JObj kvs)"
    and "set required_keys_B \<subseteq> fst ` set kvs"
  shows "\<exists>v. map_of kvs (lit ''key_findings'') = Some v
     \<and> summarize_paper lw chat loads text api_key
         = Inr (JObj (AList.update (lit ''key_findings'') (as_list v) kvs))
     \<and> (as_list v = v \<longrightarrow> summarize_paper lw chat loads text api_key = Inr (JObj kvs))"
proof -
  have "lit ''key_findings'' \<in> set required_keys_B"
    by (simp add: required_keys_B_def)
  with assms show ?thesis
    unfolding summarize_paper_def by (rule summarize_all_present)
qed

text \<open>
  C4. When the parsed answer is a JSON object with every required key of the variant,
  the summarizer returns that object with the list field (\<open>key_points\<close> in Variant A,
  \<open>key_findings\<close> in Variant B) replaced by its coercion and every other entry as it
  was: a list stays as it is (the object is returned unchanged), a string \<open>s\<close> becomes
  \<open>[s]\<close>, a value of any other type becomes \<open>[]\<close>. The summarizer does not raise,
  whatever the type of the field.
\<close>

theorem list_field_coerced:
  assumes "chat api_key text = Inr (Some r)" "loads (strip_fences r) = Inr (JObj kvs)"
  shows "(set required_keys_A \<subseteq> fst ` set kvs \<longrightarrow>
            (\<exists>v. map_of kvs (lit ''key_points'') = Some v
               \<and> summarize_paper_with_openai lw chat loads text api_key
                   = Inr (JObj (AList.update (lit ''key_points'') (as_list v) kvs))
               \<and> (as_list v = v \<longrightarrow>
                    summarize_paper_with_openai lw chat loads text api_key = Inr (JObj kvs))))
       \<and> (set required_keys_B \<subseteq> fst ` set kvs \<longrightarrow>
            (\<exists>v. map_of kvs (lit ''key_findings'') = Some v
               \<and> summarize_paper lw chat loads text api_key
                   = Inr (JObj (AList.update (lit ''key_findings'') (as_list v) kvs))
               \<and> (as_list v = v \<longrightarrow>
                    summarize_paper lw chat loads text api_key = Inr (JObj kvs))))"
proof (intro conjI impI)
  assume "set required_keys_A \<subseteq> fst ` set kvs"
  with assms show "\<exists>v. map_of kvs (lit ''key_points'') = Some v
               \<and> summarize_paper_with_openai lw chat loads text api_key
                   = Inr (JObj (AList.update (lit ''key_points'') (as_list v) kvs))
               \<and> (as_list v = v \<longrightarrow>
                    summarize_paper_with_openai lw chat loads text api_key = Inr (JObj kvs))"
    by (rule summarize_A_present)
next
  assume "set required_keys_B \<subseteq> fst ` set kvs"
  with assms show "\<exists>v. map_of kvs (lit ''key_findings'') = Some v
               \<and> summarize_paper lw chat loads text api_key
                   = Inr (JObj (AList.update (lit ''key_findings'') (as_list v) kvs))
               \<and> (as_list v = v \<longrightarrow>
                    summarize_paper lw chat loads text api_key = Inr (JObj kvs))"
    by (rule summarize_B_present)
qed


lemma sample_answer_keys:
  "set required_keys_A \<subseteq> fst ` set sample_answer"
  "set required_keys_B \<subseteq> fst ` set sample_answer"
  by (simp_all add: required_keys_A_def required_keys_B_def sample_answer_def lit_def)

theorem list_field_coerced_witness:
  "(\<lambda>k t. Inr (Some (lit ''{}''))) (lit ''sk-1'') (lit ''paper'')
       = (Inr (Some (lit ''{}'')) :: exn + pystr option)
   \<and> (\<lambda>s. Inr (JObj sample_answer)) (strip_fences (lit ''{}''))
       = (Inr (JObj sample_answer) :: exn + json)
   \<and> set required_keys_A \<subseteq> fst ` set sample_answer
   \<and> set required_keys_B \<subseteq> fst ` set sample_answer
   \<and> summarize_paper_with_openai ascii_lower (\<lambda>k t. Inr (Some (lit ''{}'')))
        (\<lambda>s. Inr (JObj sample_answer)) (lit ''paper'') (lit ''sk-1'')
       = Inr (JObj (AList.update (lit ''key_points'') (JList [JStr (lit ''one point'')])
                      sample_answer))
   \<and> summarize_paper ascii_lower (\<lambda>k t. Inr (Some (lit ''{}'')))
        (\<lambda>s. Inr (JObj sample_answer)) (lit ''paper'') (lit ''sk-1'')
       = Inr (JObj (AList.update (lit ''key_findings'') (JList []) sample_answer))"
proof -
  let ?chat = "\<lambda>k t. Inr (Some (lit ''{}'')) :: exn + pystr option"
  let ?loads = "\<lambda>s. Inr (JObj sample_answer) :: exn + json"
  have h1: "?chat (lit ''sk-1'') (lit ''paper'') = Inr (Some (lit ''{}''))"
    by simp
  have h2: "?loads (strip_fences (lit ''{}'')) = Inr (JObj sample_answer)"
    by simp
  note t = list_field_coerced [of "?chat" "lit ''sk-1''" "lit ''paper''" "lit ''{}''" "?loads"
      sample_answer ascii_lower, OF h1 h2]
  have va: "map_of sample_answer (lit ''key_points'') = Some (JStr (lit ''one point''))"
    by (simp add: sample_answer_def lit_def)
  have vb: "map_of sample_answer (lit ''key_findings'') = Some (JInt 3)"
    by (simp add: sample_answer_def lit_def)
  from t [THEN conjunct1, rule_format, OF sample_answer_keys(1)] obtain v
    where "map_of sample_answer (lit ''key_points'') = Some v"
      and "summarize_paper_with_openai ascii_lower ?chat ?loads (lit ''paper'') (lit ''sk-1'')
             = Inr (JObj (AList.update (lit ''key_points'') (as_list v) sample_answer))"
    by (elim exE conjE)
  with va have ra: "summarize_paper_with_openai ascii_lower ?chat ?loads (lit ''paper'') (lit ''sk-1'')
       = Inr (JObj (AList.update (lit ''key_points'') (JList [JStr (lit ''one point'')])
                      sample_answer))"
    by simp
  from t [THEN conjunct2, rule_format, OF sample_answer_keys(2)] obtain v
    where "map_of sample_answer (lit ''key_findings'') = Some v"
      and "summarize_paper ascii_lower ?chat ?loads (lit ''paper'') (lit ''sk-1'')
             = Inr (JObj (AList.update (lit ''key_findings'') (as_list v) sample_answer))"
    by (elim exE conjE)
  with vb have rb: "summarize_paper ascii_lower ?chat ?loads (lit ''paper'') (lit ''sk-1'')
       = Inr (JObj (AList.update (lit ''key_findings'') (JList []) sample_answer))"
    by simp
  show ?thesis
    by (intro conjI h1 h2 sample_answer_keys ra rb)
qed

text \<open>
  C6. The post-processing strips surrounding whitespace, removes a leading
  \<open>```json\<close> marker if there is one, then a leading \<open>```\<close> marker if there is one, then a
  trailing \<open>```\<close> marker if there is one, and strips surrounding whitespace again. So the
  text of a JSON object (it starts with \<open>{\<close> and ends with \<open>}\<close>) comes out the same
  whether it is wrapped in \<open>```json\<close> fences, in plain fences or in none, with any
  whitespace around the fences and the object; and an answer in \<open>```json\<close> fences whose
  object parses and has every required key is summarized without an error.
\<close>

theorem fences_stripped:
  assumes "body \<noteq> []" "hd body = 123" "last body = 125"
    and "\<forall>c \<in> set w0. isspace c" "\<forall>c \<in> set w1. isspace c"
      "\<forall>c \<in> set w2. isspace c" "\<forall>c \<in> set w3. isspace c"
    and "chat api_key text
           = Inr (Some (w0 @ lit ''```json'' @ w1 @ body @ w2 @ lit ''```'' @ w3))"
    and "loads body = Inr (JObj kvs)"
  shows "strip_fences r
           = py_strip (remove_trailing (lit ''```'')
               (remove_leading (lit ''```'') (remove_leading (lit ''```json'') (py_strip r))))
       \<and> strip_fences (w0 @ lit ''```json'' @ w1 @ body @ w2 @ lit ''```'' @ w3) = body
       \<and> strip_fences (w0 @ lit ''```'' @ w1 @ body @ w2 @ lit ''```'' @ w3) = body
       \<and> strip_fences (w0 @ body @ w3) = body
       \<and> (set required_keys_A \<subseteq> fst ` set kvs \<longrightarrow>
            (\<exists>summary. summarize_paper_with_openai lw chat loads text api_key = Inr summary))
       \<and> (set required_keys_B \<subseteq> fst ` set kvs \<longrightarrow>
            (\<exists>summary. summarize_paper lw chat loads text api_key = Inr summary))"
proof (intro conjI impI)
  show "strip_fences r
           = py_strip (remove_trailing (lit ''```'')
               (remove_leading (lit ''```'') (remove_leading (lit ''```json'') (py_strip r))))"
    by (rule strip_fences_eq)
  show f: "strip_fences (w0 @ lit ''```json'' @ w1 @ body @ w2 @ lit ''```'' @ w3) = body"
    using assms(1-7) by (rule strip_fences_fenced)
  show "strip_fences (w0 @ lit ''```'' @ w1 @ body @ w2 @ lit ''```'' @ w3) = body"
    using assms(1-7) by (rule strip_fences_plain)
  show "strip_fences (w0 @ body @ w3) = body"
    using assms(1-4,7) by (rule strip_fences_bare)
  have l: "loads (strip_fences (w0 @ lit ''```json'' @ w1 @ body @ w2 @ lit ''```'' @ w3))
             = Inr (JObj kvs)"
    unfolding f by (rule assms(9))
  show "\<exists>summary. summarize_paper_with_openai lw chat loads text api_key = Inr summary"
    if "set required_keys_A \<subseteq> fst ` set kvs"
  proof -
    from assms(8) l that have "\<exists>v. map_of kvs (lit ''key_points'') = Some v
        \<and> summarize_paper_with_openai lw chat loads text api_key
            = Inr (JObj (AList.update (lit ''key_points'') (as_list v) kvs))
        \<and> (as_list v = v \<longrightarrow>
              summarize_paper_with_openai lw chat loads text api_key = Inr (JObj kvs))"
      by (rule summarize_A_present)
    then obtain v where
      "summarize_paper_with_openai lw chat loads text api_key
         = Inr (JObj (AList.update (lit ''key_points'') (as_list v) kvs))"
      by (elim exE conjE)
    then show ?thesis
      by (rule exI)
  qed
  show "\<exists>summary. summarize_paper lw chat loads text api_key = Inr summary"
    if "set required_keys_B \<subseteq> fst ` set kvs"
  proof -
    from assms(8) l that have "\<exists>v. map_of kvs (lit ''key_findings'') = Some v
        \<and> summarize_paper lw chat loads text api_key
            = Inr (JObj (AList.update (lit ''key_findings'') (as_list v) kvs))
        \<and> (as_list v = v \<longrightarrow> summarize_paper lw chat loads text api_key = Inr (JObj kvs))"
      by (rule summarize_B_present)
    then obtain v where
      "summarize_paper lw chat loads text api_key
         = Inr (JObj (AList.update (lit ''key_findings'') (as_list v) kvs))"
      by (elim exE conjE)
    then show ?thesis
      by (rule exI)
  qed
qed


theorem fences_stripped_witness:
  "lit ''{}'' \<noteq> [] \<and> hd (lit ''{}'') = 123 \<and> last (lit ''{}'') = 125 \<and> isspace 10
   \<and> (\<lambda>k t. Inr (Some ([10] @ lit ''```json'' @ [10] @ lit ''{}'' @ [10] @ lit ''```'' @ [10])))
         (lit ''sk-1'') (lit ''paper'')
       = (Inr (Some ([10] @ lit ''```json'' @ [10] @ lit ''{}'' @ [10] @ lit ''```'' @ [10]))
            :: exn + pystr option)
   \<and> (\<lambda>s. if s = lit ''{}'' then Inr (JObj sample_answer)
            else Inl (JSONDecodeError (lit ''Expecting value''))) (lit ''{}'')
       = Inr (JObj sample_answer)
   \<and> set required_keys_A \<subseteq> fst ` set sample_answer
   \<and> set required_keys_B \<subseteq> fst ` set sample_answer
   \<and> strip_fences ([10] @ lit ''```json'' @ [10] @ lit ''{}'' @ [10] @ lit ''```'' @ [10])
       = lit ''{}''
   \<and> (\<exists>summary. summarize_paper_with_openai ascii_lower
         (\<lambda>k t. Inr (Some ([10] @ lit ''```json'' @ [10] @ lit ''{}'' @ [10] @ lit ''```'' @ [10])))
         (\<lambda>s. if s = lit ''{}'' then Inr (JObj sample_answer)
              else Inl (JSONDecodeError (lit ''Expecting value'')))
         (lit ''paper'') (lit ''sk-1'') = Inr summary)
   \<and> (\<exists>summary. summarize_paper ascii_lower
         (\<lambda>k t. Inr (Some ([10] @ lit ''```json'' @ [10] @ lit ''{}'' @ [10] @ lit ''```'' @ [10])))
         (\<lambda>s. if s = lit ''{}'' then Inr (JObj sample_answer)
              else Inl (JSONDecodeError (lit ''Expecting value'')))
         (lit ''paper'') (lit ''sk-1'') = Inr summary)"
proof -
  let ?fenced = "[10] @ lit ''```json'' @ [10] @ lit ''{}'' @ [10] @ lit ''```'' @ [10]"
  let ?chat = "\<lambda>k t. Inr (Some ?fenced) :: exn + pystr option"
  let ?loads = "\<lambda>s. if s = lit ''{}'' then Inr (JObj sample_answer)
            else Inl (JSONDecodeError (lit ''Expecting value''))"
  have b: "lit ''{}'' \<noteq> []" "hd (lit ''{}'') = 123" "last (lit ''{}'') = 125"
    by (simp_all add: lit_def)
  have sp: "isspace 10"
    by (simp add: isspace_def)
  then have w: "\<forall>c \<in> set [10]. isspace c"
    by simp
  have h1: "?chat (lit ''sk-1'') (lit ''paper'') = Inr (Some ?fenced)"
    by simp
  have h2: "?loads (lit ''{}'') = Inr (JObj sample_answer)"
    by simp
  note t = fences_stripped [of "lit ''{}''" "[10]" "[10]" "[10]" "[10]" "?chat" "lit ''sk-1''"
      "lit ''paper''" "?loads" sample_answer "[]" ascii_lower, OF b w w w w h1 h2]
  have c1: "strip_fences ?fenced = lit ''{}''"
    by (rule t [THEN conjunct2, THEN conjunct1])
  have c2: "\<exists>summary. summarize_paper_with_openai ascii_lower ?chat ?loads
         (lit ''paper'') (lit ''sk-1'') = Inr summary"
    by (rule t [THEN conjunct2, THEN conjunct2, THEN conjunct2, THEN conjunct2, THEN conjunct1,
          rule_format, OF sample_answer_keys(1)])
  have c3: "\<exists>summary. summarize_paper ascii_lower ?chat ?loads
         (lit ''paper'') (lit ''sk-1'') = Inr summary"
    by (rule t [THEN conjunct2, THEN conjunct2, THEN conjunct2, THEN conjunct2, THEN conjunct2,
          rule_format, OF sample_answer_keys(2)])
  show ?thesis
    by (intro conjI b sp h1 h2 sample_answer_keys c1 c2 c3)
qed

section \<open>Record sink: properties\<close>

lemma str_items_strings: "str_items i (map JStr xs) = Inr xs"
  by (induction xs arbitrary: i) simp_all

lemma py_join_concat: "py_join sep (x # xs) = x @ concat (map (\<lambda>y. sep @ y) xs)"
  by (induction xs arbitrary: x) simp_all

lemma flatten_strings:
  "flatten_key_points (map JStr xs) = Inr (concat (map (\<lambda>x. [10] @ lit ''- '' @ x) xs))"
proof -
  have "str_items 0 (JStr [] # map JStr xs) = Inr ([] # xs)"
    by (simp add: str_items_strings)
  then show ?thesis
    by (simp add: flatten_key_points_def join_values_def py_join_concat)
qed

lemma spec_bulleted_concat:
  "xs \<noteq> [] \<Longrightarrow> concat (map (\<lambda>x. [10] @ lit ''- '' @ x) xs) = [10] @ spec_bulleted xs"
proof (induction xs)
  case Nil
  then show ?case by simp
next
  case (Cons x xs)
  then show ?case
    by (cases xs) (simp_all add: spec_bulleted_def)
qed

text \<open>
  C7, as stated, fails on the code: for the list \<open>["a", "b"]\<close> the flattened string is
  \<open>"\n- a\n- b"\<close>, which starts with a newline, and not \<open>"- a\n- b"\<close>.
\<close>

theorem flattened_starts_with_newline:
  "flatten_key_points [JStr (lit ''a''), JStr (lit ''b'')]
     = Inr ([10] @ lit ''- a'' @ [10] @ lit ''- b'')
   \<and> spec_bulleted [lit ''a'', lit ''b''] = lit ''- a'' @ [10] @ lit ''- b''
   \<and> [10] @ lit ''- a'' @ [10] @ lit ''- b'' \<noteq> lit ''- a'' @ [10] @ lit ''- b''"
proof -
  have "flatten_key_points (map JStr [lit ''a'', lit ''b''])
      = Inr (concat (map (\<lambda>x. [10] @ lit ''- '' @ x) [lit ''a'', lit ''b'']))"
    by (rule flatten_strings)
  then have a: "flatten_key_points [JStr (lit ''a''), JStr (lit ''b'')]
     = Inr ([10] @ lit ''- a'' @ [10] @ lit ''- b'')"
    by (simp add: lit_def)
  have b: "spec_bulleted [lit ''a'', lit ''b''] = lit ''- a'' @ [10] @ lit ''- b''"
    by (simp add: spec_bulleted_def lit_def)
  have c: "[10] @ lit ''- a'' @ [10] @ lit ''- b'' \<noteq> lit ''- a'' @ [10] @ lit ''- b''"
    by (simp add: lit_def)
  show ?thesis
    by (intro conjI a b c)
qed

text \<open>
  C7, amended. For a list field that is a list of strings \<open>[x1, ..., xn]\<close>, the
  flattening that \<open>main\<close> of \<open>app.py\<close> and \<open>insert_paper_record\<close> use gives the string in
  which every item is prefixed with \<open>"\n- "\<close>, in the original order:
  \<open>"\n- x1\n- x2 ... \n- xn"\<close>. That is the empty string for the empty list, and otherwise
  a newline followed by the items prefixed with \<open>"- "\<close> and joined by newlines.
\<close>

theorem flattened_key_points:
  "flatten_key_points (map JStr xs) = Inr (concat (map (\<lambda>x. [10] @ lit ''- '' @ x) xs))
   \<and> flatten_key_points (map JStr xs) = Inr (if xs = [] then [] else [10] @ spec_bulleted xs)
   \<and> flat_or_str (JList (map JStr xs))
       = Inr (JStr (if xs = [] then [] else [10] @ spec_bulleted xs))"
proof -
  have a: "flatten_key_points (map JStr xs) = Inr (concat (map (\<lambda>x. [10] @ lit ''- '' @ x) xs))"
    by (rule flatten_strings)
  have b: "concat (map (\<lambda>x. [10] @ lit ''- '' @ x) xs) = (if xs = [] then [] else [10] @ spec_bulleted xs)"
    using spec_bulleted_concat [of xs] by simp
  have c: "flatten_key_points (map JStr xs) = Inr (if xs = [] then [] else [10] @ spec_bulleted xs)"
    unfolding a b by (rule refl)
  have d: "flat_or_str (JList (map JStr xs))
       = Inr (JStr (if xs = [] then [] else [10] @ spec_bulleted xs))"
    by (simp add: flat_or_str_def c)
  show ?thesis
    by (intro conjI a c d)
qed

text \<open>
  C10. \<open>insert_paper_record\<close> changes the dict it is given: when the \<open>key_points\<close> entry
  of the caller's dict is a list and the list flattens to a string (its items are
  strings), the entry of that same dict holds the flattened string afterwards, whatever
  the store answers (the assignment comes before the insert), and every other dict is
  as it was. The caller's dict is no longer what it was before the call.
\<close>

theorem insert_overwrites_key_points:
  assumes "map_of (h data) (lit ''key_points'') = Some (JList items)"
    and "flatten_key_points items = Inr flat"
  shows "snd (insert_paper_record db h data)
           = h(data := AList.update (lit ''key_points'') (JStr flat) (h data))
       \<and> map_of (snd (insert_paper_record db h data) data) (lit ''key_points'')
           = Some (JStr flat)
       \<and> snd (insert_paper_record db h data) data \<noteq> h data"
proof -
  let ?d = "AList.update (lit ''key_points'') (JStr flat) (h data)"
  have a: "snd (insert_paper_record db h data) = h(data := ?d)"
    using assms
    by (simp add: insert_paper_record_def split: sum.splits list.splits)
  have b: "map_of ?d (lit ''key_points'') = Some (JStr flat)"
    by (simp add: update_conv')
  with assms(1) have c: "?d \<noteq> h data"
    by auto
  show ?thesis
    unfolding a using b c by simp
qed

theorem insert_overwrites_key_points_witness:
  "map_of ((\<lambda>r. [(lit ''title'', JStr (lit ''T'')),
                  (lit ''key_points'', JList [JStr (lit ''a''), JStr (lit ''b'')])]) (0::nat))
       (lit ''key_points'')
     = Some (JList [JStr (lit ''a''), JStr (lit ''b'')])
   \<and> flatten_key_points [JStr (lit ''a''), JStr (lit ''b'')]
     = Inr ([10] @ lit ''- a'' @ [10] @ lit ''- b'')
   \<and> snd (insert_paper_record (\<lambda>d. Inr [])
        (\<lambda>r. [(lit ''title'', JStr (lit ''T'')),
              (lit ''key_points'', JList [JStr (lit ''a''), JStr (lit ''b'')])]) 0) 0
     = [(lit ''title'', JStr (lit ''T'')),
        (lit ''key_points'', JStr ([10] @ lit ''- a'' @ [10] @ lit ''- b''))]
   \<and> snd (insert_paper_record (\<lambda>d. Inr [])
        (\<lambda>r. [(lit ''title'', JStr (lit ''T'')),
              (lit ''key_points'', JList [JStr (lit ''a''), JStr (lit ''b'')])]) 0) 0
     \<noteq> (\<lambda>r. [(lit ''title'', JStr (lit ''T'')),
              (lit ''key_points'', JList [JStr (lit ''a''), JStr (lit ''b'')])]) (0::nat)"
proof -
  let ?d = "[(lit ''title'', JStr (lit ''T'')),
             (lit ''key_points'', JList [JStr (lit ''a''), JStr (lit ''b'')])]"
  let ?h = "\<lambda>r::nat. ?d"
  let ?db = "\<lambda>d::dict. Inr [] :: exn + dict list"
  have h: "map_of (?h 0) (lit ''key_points'') = Some (JList [JStr (lit ''a''), JStr (lit ''b'')])"
    by (simp add: lit_def)
  have "flatten_key_points (map JStr [lit ''a'', lit ''b''])
      = Inr (concat (map (\<lambda>x. [10] @ lit ''- '' @ x) [lit ''a'', lit ''b'']))"
    by (rule flatten_strings)
  then have f: "flatten_key_points [JStr (lit ''a''), JStr (lit ''b'')]
     = Inr ([10] @ lit ''- a'' @ [10] @ lit ''- b'')"
    by (simp add: lit_def)
  note t = insert_overwrites_key_points [of "?h" 0 "[JStr (lit ''a''), JStr (lit ''b'')]"
      "[10] @ lit ''- a'' @ [10] @ lit ''- b''" "?db", OF h f]
  have a: "snd (insert_paper_record ?db ?h 0) 0
     = [(lit ''title'', JStr (lit ''T'')),
        (lit ''key_points'', JStr ([10] @ lit ''- a'' @ [10] @ lit ''- b''))]"
    unfolding t [THEN conjunct1] by (simp add: lit_def)
  have b: "snd (insert_paper_record ?db ?h 0) 0 \<noteq> ?h 0"
    by (rule t [THEN conjunct2, THEN conjunct2])
  show ?thesis
    by (intro conjI h f a b)
qed

section \<open>The two applications: properties\<close>

lemma generate_digest_raw_calls:
  assumes "py_or (openai_api_key st) env_key = Some k" "k \<noteq> []"
    and "t \<noteq> []" "\<not> length (py_strip t) < 100"
  shows "extractor_calls (generate_digest lw chat loads st env_key RawText t) = [t]"
  using assms by (simp add: generate_digest_def split: sum.splits)

lemma generate_digest_raw_short:
  assumes "length (py_strip t) < 100"
  shows "extractor_calls (generate_digest lw chat loads st env_key RawText t) = []"
  using assms by (simp add: generate_digest_def split: option.splits)

lemma generate_digest_url_nothing:
  assumes "paper_text st = None"
  shows "extractor_calls (generate_digest lw chat loads st env_key URL area) = []"
  using assms by (simp add: generate_digest_def split: option.splits)

lemma fetch_content_short:
  assumes "length (collapse_ws t) < 100" "http url = Inr resp" "digest_extract lw url resp = Inr t"
  shows "fetch_content lw http st url = st"
proof -
  have c: "clean_text t 10000 = Inl (ValueError (lit
           ''Extracted text is too short or empty. The content may be inaccessible.''))"
    using assms(1) by (rule clean_text_short) simp
  show ?thesis
  proof (cases "is_pdf_url lw url")
    case True
    with assms(3) obtain pages where "pdf_pages resp = Inr pages" "t = pdf_full_text 5 pages"
      by (auto simp: digest_extract_def split: sum.splits)
    with True assms(2) c show ?thesis
      by (simp add: fetch_content_def fetch_pdf_text_def)
  next
    case False
    with assms(3) have "t = html_full_text resp"
      by (simp add: digest_extract_def)
    with False assms(2) c show ?thesis
      by (simp add: fetch_content_def fetch_html_text_def)
  qed
qed

lemma fetch_content_from_url_short:
  assumes "length (collapse_ws t) < 100" "http url = Inr resp" "extract_full_text lw url resp = Inr t"
  shows "fetch_content_from_url lw http url = Inl (Exception (lit ''Error processing content: ''
     @ lit ''Could not extract sufficient text from the URL. The content may be too short or inaccessible.''))"
proof -
  have "clean_text t 10000 = Inl (ValueError (lit
           ''Extracted text is too short or empty. The content may be inaccessible.''))"
    using assms(1) by (rule clean_text_short) simp
  then have "clean_fetched t = Inl (ValueError (lit
           ''Could not extract sufficient text from the URL. The content may be too short or inaccessible.''))"
    by (simp add: clean_fetched_eq)
  with assms(2,3) show ?thesis
    by (simp add: fetch_content_from_url_def)
qed

lemma summarize_and_save_no_call:
  assumes "fetch_content_from_url lw http url = Inl e"
  shows "extractor_calls (summarize_and_save lw http chat loads db session_key env_key url) = []"
  using assms by (simp add: summarize_and_save_def split: option.splits)





end
